theory Spec2Isabelle
  imports Main "HOL-Library.Sublist" "HOL-Library.Word"
begin

text \<open>
  A model of the schema encoder \<open>SchemaEncoder\<close> (\<open>src/schema-encoder.ts\<close>): its constructor,
  \<open>encodeData\<close>, \<open>decodeData\<close>, \<open>isEncodedDataValid\<close> and the helpers for content
  identifiers. Exceptions are values of the type \<open>error\<close>; the libraries the class calls
  are a parameter \<open>L\<close> of every function.
\<close>

section \<open>JavaScript values and strings\<close>

text \<open>
  Strings are lists of 8-bit characters: the strings of the program whose code units lie
  in 0..255. Byte arrays (\<open>Uint8Array\<close>) are lists of 8-bit words.
\<close>

type_synonym byte = "8 word"

text \<open>
  The values that flow through the encoder (\<open>SchemaValue\<close> and what the codec
  returns): strings, booleans, numbers (the integers among them), \<open>BigNumber\<close> objects,
  byte arrays and arrays. Plain objects, which the encoder only forwards to the codec and
  the codec never returns, are not modelled.
\<close>

datatype jsval =
    JString string
  | JBoolean bool
  | JNumber int
  | JBigNumber int
  | JBytes "byte list"
  | JArray "jsval list"

text \<open>\<open>typeof v === 'object'\<close>\<close>

fun typeof_object :: "jsval \<Rightarrow> bool" where
  "typeof_object (JString _) = False"
| "typeof_object (JBoolean _) = False"
| "typeof_object (JNumber _) = False"
| "typeof_object (JBigNumber _) = True"
| "typeof_object (JBytes _) = True"
| "typeof_object (JArray _) = True"

text \<open>\<open>s.includes(pat)\<close>\<close>

definition str_includes :: "string \<Rightarrow> string \<Rightarrow> bool" where
  "str_includes s pat = sublist pat s"

text \<open>\<open>s.replace(pat, rep)\<close> with a string pattern: the first occurrence only.\<close>

fun replace_first :: "string \<Rightarrow> string \<Rightarrow> string \<Rightarrow> string" where
  "replace_first pat rep [] = (if pat = [] then rep else [])"
| "replace_first pat rep (c # cs) =
     (if prefix pat (c # cs) then rep @ drop (length pat) (c # cs)
      else c # replace_first pat rep cs)"

text \<open>
  \<open>s.replace(/pat/g, rep)\<close> for a literal, non-empty pattern: every occurrence, scanning
  from the left, the scan resuming after each match.
\<close>

function replace_all :: "string \<Rightarrow> string \<Rightarrow> string \<Rightarrow> string" where
  "replace_all pat rep [] = []"
| "replace_all pat rep (c # cs) =
     (if pat \<noteq> [] \<and> prefix pat (c # cs)
      then rep @ replace_all pat rep (drop (length pat - 1) cs)
      else c # replace_all pat rep cs)"
  by pat_completeness auto
termination
  by (relation "measure (\<lambda>(pat, rep, s). length s)") auto

text \<open>The class \<open>\s\<close> of regular expressions, on code units below 256.\<close>

definition is_space :: "char \<Rightarrow> bool" where
  "is_space c = (c \<in> set [CHR 0x09, CHR 0x0A, CHR 0x0B, CHR 0x0C, CHR 0x0D, CHR 0x20, CHR 0xA0])"

text \<open>\<open>xs.join(sep)\<close>\<close>

fun join :: "string \<Rightarrow> string list \<Rightarrow> string" where
  "join sep [] = []"
| "join sep [x] = x"
| "join sep (x # y # ys) = x @ sep @ join sep (y # ys)"

section \<open>Data model\<close>

text \<open>
  \<open>ParamType\<close> of the ABI library: what \<open>fragment.inputs\<close> holds. The name of a
  parameter declared without one is \<open>null\<close> (\<open>None\<close>), and so are the components of a type
  that has none.
\<close>

datatype ParamType =
  ParamType (pt_name: "string option") (pt_type: string) (pt_components: "ParamType list option")

text \<open>
  \<open>SchemaItem\<close> and \<open>SchemaItemWithSignature\<close>. The caller's items carry a string as their
  name; the items the program builds copy the name of a \<open>ParamType\<close>, which may be
  \<open>null\<close>.
\<close>

record 'n SchemaItem =
  si_name :: 'n
  si_type :: string
  si_value :: jsval

record 'n SchemaItemWithSignature = "'n SchemaItem" +
  si_signature :: string

type_synonym Param = "string SchemaItem"

type_synonym NamedValue = "string option SchemaItem"

type_synonym Descriptor = "string option SchemaItemWithSignature"

text \<open>
  The value of a decoded field: the raw value, the named components of a tuple, or the
  named components of every element of a tuple array.
\<close>

datatype decodedValue =
    Plain jsval
  | Named "NamedValue list"
  | NamedList "NamedValue list list"

record DecodedInner =
  di_name :: "string option"
  di_type :: string
  di_value :: decodedValue

record SchemaDecodedItem =
  sd_name :: "string option"
  sd_type :: string
  sd_signature :: string
  sd_value :: DecodedInner

record MultihashDigest =
  mh_digest :: "byte list"
  mh_code :: nat
  mh_size :: nat
  mh_bytes :: "byte list"

record CID =
  cid_version :: nat
  cid_code :: nat
  cid_multihash :: MultihashDigest
  cid_bytes :: "byte list"

datatype error =
    InvalidNumberOrValues
  | IncompatibleParamType string
  | IncompatibleParamName string
  | UnexpectedInputs
  | TypeError
  | Thrown string

text \<open>
  The external libraries (the ABI library and the CID library) are parameters of the
  model: each function returns its result or the message of the exception it throws.
\<close>

record lib =
  FunctionFragment_from :: "string \<Rightarrow> string + ParamType list"
  getDefaultValue :: "ParamType list \<Rightarrow> string + unit"
  abi_encode :: "string list \<Rightarrow> jsval list \<Rightarrow> string + string"
  abi_decode :: "string list \<Rightarrow> string \<Rightarrow> string + jsval list"
  isBytesLike :: "jsval \<Rightarrow> bool"
  formatBytes32String :: "jsval \<Rightarrow> string + string"
  CID_parse :: "jsval \<Rightarrow> string + CID"
  CID_createV0 :: "MultihashDigest \<Rightarrow> string + CID"
  CID_toString :: "CID \<Rightarrow> string"

definition thrown :: "string + 'a \<Rightarrow> error + 'a" where
  "thrown r = (case r of Inl m \<Rightarrow> Inl (Thrown m) | Inr v \<Rightarrow> Inr v)"

section \<open>The constructor\<close>

definition TUPLE_TYPE :: string where
  "TUPLE_TYPE = ''tuple''"

definition TUPLE_ARRAY_TYPE :: string where
  "TUPLE_ARRAY_TYPE = ''tuple[]''"

text \<open>
  Modelled from the spec: \<open>ZERO_ADDRESS\<close> of \<open>./utils\<close>, the all-zero address constant.
\<close>

definition ZERO_ADDRESS :: string where
  "ZERO_ADDRESS = ''0x'' @ replicate 40 (CHR ''0'')"

definition getDefaultValueForTypeName :: "string \<Rightarrow> jsval" where
  "getDefaultValueForTypeName typeName =
     (if typeName = ''bool'' then JBoolean False
      else if str_includes typeName ''uint'' then JString ''0''
      else if typeName = ''address'' then JString ZERO_ADDRESS
      else JString '''')"

text \<open>
  \<open>name ? `${t} ${name}` : t\<close>: the name is appended, after a space, when it is neither
  \<open>null\<close> nor empty.
\<close>

definition with_name :: "string \<Rightarrow> string option \<Rightarrow> string" where
  "with_name t name =
     (case name of
        None \<Rightarrow> t
      | Some n \<Rightarrow> if n = [] then t else t @ '' '' @ n)"

text \<open>The body of the loop over \<open>fragment.inputs\<close>: the descriptor of one parameter.\<close>

definition schemaItemOf :: "ParamType \<Rightarrow> Descriptor" where
  "schemaItemOf paramType =
     (let name = pt_name paramType;
          components = (case pt_components paramType of None \<Rightarrow> [] | Some cs \<Rightarrow> cs);
          type0 = pt_type paramType;
          signature0 = with_name type0 name;
          signatureSuffix = with_name [] name;
          componentsType = ''('' @ join '','' (map pt_type components) @ '')'';
          componentsFullType = ''('' @ join '',''
            (map (\<lambda>c. with_name (pt_type c) (pt_name c)) components) @ '')'';
          (type1, signature, typeName) =
            (if type0 = TUPLE_TYPE
             then (componentsType, componentsFullType @ signatureSuffix, type0)
             else if type0 = TUPLE_ARRAY_TYPE
             then (componentsType @ ''[]'', componentsFullType @ ''[]'' @ signatureSuffix, type0)
             else if str_includes type0 ''[]''
             then (type0, signature0, replace_first ''[]'' [] type0)
             else (type0, signature0, type0));
          singleValue = getDefaultValueForTypeName typeName
      in \<lparr> si_name = name, si_type = type1,
           si_value = (if str_includes type1 ''[]'' then JArray [] else singleValue),
           si_signature = signature \<rparr>)"

definition constructor :: "lib \<Rightarrow> string \<Rightarrow> error + Descriptor list" where
  "constructor L schema =
     (let fixedSchema = replace_all ''ipfsHash'' ''bytes32'' schema in
      case thrown (FunctionFragment_from L (''func('' @ fixedSchema @ '')'')) of
        Inl e \<Rightarrow> Inl e
      | Inr inputs \<Rightarrow>
          (case thrown (getDefaultValue L inputs) of
             Inl e \<Rightarrow> Inl e
           | Inr _ \<Rightarrow> Inr (map schemaItemOf inputs)))"

section \<open>Encoding\<close>

definition signatures :: "Descriptor list \<Rightarrow> string list" where
  "signatures schema = map si_signature schema"

definition encodeBytes32Value :: "lib \<Rightarrow> jsval \<Rightarrow> error + jsval" where
  "encodeBytes32Value L val =
     (case abi_encode L [''bytes32''] [val] of
        Inr _ \<Rightarrow> Inr val
      | Inl _ \<Rightarrow> map_sum id JString (thrown (formatBytes32String L val)))"

text \<open>
  The \<open>try\<close> block covers both the parse of the identifier and the encoding of its
  digest: whichever throws, the \<open>catch\<close> block runs.
\<close>

definition decodeIpfsValue :: "lib \<Rightarrow> jsval \<Rightarrow> error + jsval" where
  "decodeIpfsValue L val =
     (if isBytesLike L val then encodeBytes32Value L val
      else case CID_parse L val of
             Inl _ \<Rightarrow> encodeBytes32Value L val
           | Inr decodedHash \<Rightarrow>
               (case abi_encode L [''bytes32''] [JBytes (mh_digest (cid_multihash decodedHash))] of
                  Inl _ \<Rightarrow> encodeBytes32Value L val
                | Inr encoded \<Rightarrow> Inr (JString encoded)))"

text \<open>\<open>typeof value === 'string'\<close>\<close>

fun typeof_string :: "jsval \<Rightarrow> bool" where
  "typeof_string (JString _) = True"
| "typeof_string _ = False"

text \<open>\<open>type.replace(/\s/g, '')\<close>\<close>

definition sanitize :: "string \<Rightarrow> string" where
  "sanitize t = filter (\<lambda>c. \<not> is_space c) t"

text \<open>
  The body of the loop of \<open>encodeData\<close>: the two checks on a supplied field, then the
  value that is pushed onto \<open>data\<close>. The caller's name, a string, is strictly equal to the
  descriptor's only when that is the same string: it differs from \<open>null\<close>.
\<close>

definition encodeItem :: "lib \<Rightarrow> Descriptor \<Rightarrow> Param \<Rightarrow> error + jsval" where
  "encodeItem L schemaItem param =
     (let sanitizedType = sanitize (si_type param) in
      if sanitizedType \<noteq> si_type schemaItem \<and>
         sanitizedType \<noteq> si_signature schemaItem \<and>
         \<not> (sanitizedType = ''ipfsHash'' \<and> si_type schemaItem = ''bytes32'')
      then Inl (IncompatibleParamType sanitizedType)
      else if Some (si_name param) \<noteq> si_name schemaItem
      then Inl (IncompatibleParamName (si_name param))
      else if si_type schemaItem = ''bytes32'' \<and> si_name schemaItem = Some ''ipfsHash''
      then decodeIpfsValue L (si_value param)
      else if si_type schemaItem = ''bytes32'' \<and> typeof_string (si_value param) \<and>
              \<not> isBytesLike L (si_value param)
      then map_sum id JString (thrown (formatBytes32String L (si_value param)))
      else Inr (si_value param))"

text \<open>
  The loop over the descriptors, building \<open>data\<close>. A missing \<open>params[index]\<close> makes the
  destructuring throw; \<open>encodeData\<close> excludes it by its first check.
\<close>

fun encodeValues :: "lib \<Rightarrow> Descriptor list \<Rightarrow> Param list \<Rightarrow> error + jsval list" where
  "encodeValues L [] params = Inr []"
| "encodeValues L (schemaItem # schema) [] = Inl TypeError"
| "encodeValues L (schemaItem # schema) (param # params) =
     (case encodeItem L schemaItem param of
        Inl e \<Rightarrow> Inl e
      | Inr v \<Rightarrow>
          (case encodeValues L schema params of
             Inl e \<Rightarrow> Inl e
           | Inr data \<Rightarrow> Inr (v # data)))"

definition encodeData :: "lib \<Rightarrow> Descriptor list \<Rightarrow> Param list \<Rightarrow> error + string" where
  "encodeData L schema params =
     (if length params \<noteq> length schema then Inl InvalidNumberOrValues
      else case encodeValues L schema params of
             Inl e \<Rightarrow> Inl e
           | Inr data \<Rightarrow> thrown (abi_encode L (signatures schema) data))"

section \<open>Decoding\<close>

text \<open>\<open>value.length > 0\<close>: only strings and arrays have a length.\<close>

fun length_positive :: "jsval \<Rightarrow> bool" where
  "length_positive (JString s) = (s \<noteq> [])"
| "length_positive (JArray xs) = (xs \<noteq> [])"
| "length_positive (JBytes bs) = (bs \<noteq> [])"
| "length_positive _ = False"

text \<open>\<open>Array.isArray(value[0])\<close>\<close>

fun first_isArray :: "jsval \<Rightarrow> bool" where
  "first_isArray (JArray (JArray _ # _)) = True"
| "first_isArray _ = False"

text \<open>
  \<open>val.filter((v) => typeof v !== 'object')\<close>: arrays and byte arrays have \<open>filter\<close>;
  on any other value the call throws a \<open>TypeError\<close>.
\<close>

fun filter_raw :: "jsval \<Rightarrow> error + jsval list" where
  "filter_raw (JArray xs) = Inr (filter (\<lambda>v. \<not> typeof_object v) xs)"
| "filter_raw (JBytes bs) = Inr (map (\<lambda>b. JNumber (uint b)) bs)"
| "filter_raw _ = Inl TypeError"

text \<open>
  The loop \<open>for (const [k, v] of rawValues.entries())\<close>: the k-th raw value takes the name
  and the type of \<open>components[k]\<close>; reading \<open>component.name\<close> of a missing component
  throws.
\<close>

fun labelValues :: "ParamType list \<Rightarrow> jsval list \<Rightarrow> error + NamedValue list" where
  "labelValues components [] = Inr []"
| "labelValues [] (v # rawValues) = Inl TypeError"
| "labelValues (component # components) (v # rawValues) =
     (case labelValues components rawValues of
        Inl e \<Rightarrow> Inl e
      | Inr namedValue \<Rightarrow>
          Inr (\<lparr> si_name = pt_name component, si_type = pt_type component, si_value = v \<rparr>
               # namedValue))"

definition nameTuple :: "ParamType list \<Rightarrow> jsval \<Rightarrow> error + NamedValue list" where
  "nameTuple components val =
     (case filter_raw val of Inl e \<Rightarrow> Inl e | Inr rawValues \<Rightarrow> labelValues components rawValues)"

fun nameTuples :: "ParamType list \<Rightarrow> jsval list \<Rightarrow> error + NamedValue list list" where
  "nameTuples components [] = Inr []"
| "nameTuples components (val # vals) =
     (case nameTuple components val of
        Inl e \<Rightarrow> Inl e
      | Inr namedValue \<Rightarrow>
          (case nameTuples components vals of
             Inl e \<Rightarrow> Inl e
           | Inr namedValues \<Rightarrow> Inr (namedValue # namedValues)))"

text \<open>\<open>for (const val of value)\<close>, reached only when \<open>value[0]\<close> is an array.\<close>

fun elements :: "jsval \<Rightarrow> jsval list" where
  "elements (JArray xs) = xs"
| "elements _ = []"

text \<open>The inner \<open>value\<close> of a decoded field, from the components of its re-parsed signature.\<close>

definition nameValue ::
  "Descriptor \<Rightarrow> ParamType list option \<Rightarrow> jsval \<Rightarrow> error + DecodedInner" where
  "nameValue s components val =
     (case components of
        Some cs \<Rightarrow>
          if length_positive val then
            if first_isArray val then
              (case nameTuples cs (elements val) of
                 Inl e \<Rightarrow> Inl e
               | Inr namedValues \<Rightarrow>
                   Inr \<lparr> di_name = si_name s, di_type = si_type s, di_value = NamedList namedValues \<rparr>)
            else
              (case nameTuple cs val of
                 Inl e \<Rightarrow> Inl e
               | Inr namedValue \<Rightarrow>
                   Inr \<lparr> di_name = si_name s, di_type = si_type s, di_value = Named namedValue \<rparr>)
          else Inr \<lparr> di_name = si_name s, di_type = si_type s, di_value = Plain val \<rparr>
      | None \<Rightarrow> Inr \<lparr> di_name = si_name s, di_type = si_type s, di_value = Plain val \<rparr>)"

text \<open>
  The callback of \<open>this.schema.map\<close>. \<open>values[i]\<close> is \<open>None\<close> when the codec returned fewer
  values than there are descriptors: reading its \<open>length\<close> throws.
\<close>

definition decodeItem ::
  "lib \<Rightarrow> Descriptor \<Rightarrow> jsval option \<Rightarrow> error + SchemaDecodedItem" where
  "decodeItem L s v =
     (case thrown (FunctionFragment_from L (''func('' @ si_signature s @ '')'')) of
        Inl e \<Rightarrow> Inl e
      | Inr inputs \<Rightarrow>
          if length inputs \<noteq> 1 then Inl UnexpectedInputs
          else case v of
                 None \<Rightarrow> Inl TypeError
               | Some val \<Rightarrow>
                   (case nameValue s (pt_components (hd inputs)) val of
                      Inl e \<Rightarrow> Inl e
                    | Inr inner \<Rightarrow>
                        Inr \<lparr> sd_name = si_name s, sd_type = si_type s,
                              sd_signature = si_signature s, sd_value = inner \<rparr>))"

fun decodeItems ::
  "lib \<Rightarrow> Descriptor list \<Rightarrow> jsval list \<Rightarrow> error + SchemaDecodedItem list" where
  "decodeItems L [] vals = Inr []"
| "decodeItems L (s # schema) vals =
     (case decodeItem L s (case vals of [] \<Rightarrow> None | v # _ \<Rightarrow> Some v) of
        Inl e \<Rightarrow> Inl e
      | Inr d \<Rightarrow>
          (case decodeItems L schema (tl vals) of
             Inl e \<Rightarrow> Inl e
           | Inr ds \<Rightarrow> Inr (d # ds)))"

definition decodeData ::
  "lib \<Rightarrow> Descriptor list \<Rightarrow> string \<Rightarrow> error + SchemaDecodedItem list" where
  "decodeData L schema data =
     (case thrown (abi_decode L (signatures schema) data) of
        Inl e \<Rightarrow> Inl e
      | Inr vals \<Rightarrow> decodeItems L schema vals)"

definition isEncodedDataValid :: "lib \<Rightarrow> Descriptor list \<Rightarrow> string \<Rightarrow> bool" where
  "isEncodedDataValid L schema data =
     (case decodeData L schema data of Inr _ \<Rightarrow> True | Inl _ \<Rightarrow> False)"

section \<open>Content identifiers\<close>

definition isCID :: "lib \<Rightarrow> string \<Rightarrow> bool" where
  "isCID L cid = (case CID_parse L (JString cid) of Inr _ \<Rightarrow> True | Inl _ \<Rightarrow> False)"

definition encodeQmHash :: "lib \<Rightarrow> string \<Rightarrow> error + string" where
  "encodeQmHash L hash =
     (case thrown (CID_parse L (JString hash)) of
        Inl e \<Rightarrow> Inl e
      | Inr a \<Rightarrow> thrown (abi_encode L [''bytes32''] [JBytes (mh_digest (cid_multihash a))]))"

text \<open>The value of a hexadecimal digit, either case.\<close>

definition hexval :: "char \<Rightarrow> nat option" where
  "hexval c =
     (let k = (of_char c :: nat) in
      if 48 \<le> k \<and> k \<le> 57 then Some (k - 48)
      else if 97 \<le> k \<and> k \<le> 102 then Some (k - 87)
      else if 65 \<le> k \<and> k \<le> 70 then Some (k - 55)
      else None)"

text \<open>
  \<open>Buffer.from(s, 'hex')\<close> of the runtime: one byte per pair of hexadecimal digits, up to
  the first pair that is not one; a trailing single character is dropped.
\<close>

fun Buffer_from_hex :: "string \<Rightarrow> byte list" where
  "Buffer_from_hex (a # b # rest) =
     (case (hexval a, hexval b) of
        (Some h, Some l) \<Rightarrow> of_nat (16 * h + l) # Buffer_from_hex rest
      | _ \<Rightarrow> [])"
| "Buffer_from_hex _ = []"

definition decodeQmHash :: "lib \<Rightarrow> string \<Rightarrow> error + string" where
  "decodeQmHash L bytes32 =
     (let digest = Buffer_from_hex (drop 2 bytes32);
          dec = \<lparr> mh_digest = digest, mh_code = 18, mh_size = 32,
                  mh_bytes = 18 # 32 # digest \<rparr>
      in case thrown (CID_createV0 L dec) of
           Inl e \<Rightarrow> Inl e
         | Inr dCID \<Rightarrow> Inr (CID_toString L dCID))"

section \<open>A reference instance of the libraries\<close>

text \<open>
  The theorems of this theory hold for every library \<open>L\<close>. To evaluate the program at
  concrete inputs, \<open>ref_lib\<close> follows the behaviour of the libraries the program imports
  (ethers 5 and multiformats, which are not part of the repository) on a fragment of their
  inputs: the byte-string helpers on strings and byte
  arrays, version-0 content identifiers, and the signature parser and the multi-value codec
  on the finitely many inputs listed in \<open>ref_fragments\<close> and \<open>ref_codec\<close>. Outside the
  fragment the instance reports a thrown exception; it is evaluated only inside.
\<close>

definition hexchar :: "nat \<Rightarrow> char" where
  "hexchar n = ''0123456789abcdef'' ! n"

text \<open>\<open>hexlify\<close> without the \<open>0x\<close> prefix: two lower-case digits per byte.\<close>

definition hexlify :: "byte list \<Rightarrow> string" where
  "hexlify bs = concat (map (\<lambda>b. [hexchar (unat b div 16), hexchar (unat b mod 16)]) bs)"

text \<open>\<open>isHexString(value)\<close>: the pattern \<open>^0x[0-9A-Fa-f]*$\<close>.\<close>

definition ethers_isHexString :: "string \<Rightarrow> bool" where
  "ethers_isHexString s = (take 2 s = ''0x'' \<and> list_all (\<lambda>c. hexval c \<noteq> None) (drop 2 s))"

fun is_byte_number :: "jsval \<Rightarrow> bool" where
  "is_byte_number (JNumber n) = (0 \<le> n \<and> n < 256)"
| "is_byte_number _ = False"

text \<open>\<open>isBytesLike(value)\<close>: a hex string of even length, or a sequence of bytes.\<close>

fun ethers_isBytesLike :: "jsval \<Rightarrow> bool" where
  "ethers_isBytesLike (JString s) = (ethers_isHexString s \<and> even (length s))"
| "ethers_isBytesLike (JBytes bs) = True"
| "ethers_isBytesLike (JArray xs) = list_all is_byte_number xs"
| "ethers_isBytesLike _ = False"

text \<open>\<open>toUtf8Bytes\<close> on code units below 256: one byte below 128, two bytes from 128 on.\<close>

definition toUtf8Bytes :: "string \<Rightarrow> byte list" where
  "toUtf8Bytes s =
     concat (map (\<lambda>c. let k = (of_char c :: nat) in
                       if k < 128 then [of_nat k]
                       else [of_nat (192 + k div 64), of_nat (128 + k mod 64)]) s)"

text \<open>
  \<open>formatBytes32String(text)\<close>: the UTF-8 bytes of the text, which must leave room for a
  terminating zero (at most 31 bytes, else the function throws), padded with zeros to 32
  bytes.
\<close>

fun ethers_formatBytes32String :: "jsval \<Rightarrow> string + string" where
  "ethers_formatBytes32String (JString text) =
     (let bytes = toUtf8Bytes text in
      if length bytes > 31 then Inl ''bytes32 string must be less than 32 bytes''
      else Inr (''0x'' @ hexlify (take 32 (bytes @ replicate 32 0))))"
| "ethers_formatBytes32String _ = Inl ''outside the fragment''"

text \<open>
  \<open>defaultAbiCoder.encode(['bytes32'], [value])\<close>: the value must be a hex string of even
  length or a byte array, of exactly 32 bytes.
\<close>

fun ethers_encode_bytes32 :: "jsval \<Rightarrow> string + string" where
  "ethers_encode_bytes32 (JString s) =
     (if ethers_isHexString s \<and> even (length s) then
        (if length s = 66 then Inr (''0x'' @ hexlify (Buffer_from_hex (drop 2 s)))
         else Inl ''incorrect data length'')
      else Inl ''invalid arrayify value'')"
| "ethers_encode_bytes32 (JBytes bs) =
     (if length bs = 32 then Inr (''0x'' @ hexlify bs) else Inl ''incorrect data length'')"
| "ethers_encode_bytes32 _ = Inl ''outside the fragment''"

text \<open>One 32-byte word of the wire format holding a number below 256.\<close>

definition abi_word :: "nat \<Rightarrow> string" where
  "abi_word n = replicate 62 (CHR ''0'') @ [hexchar (n div 16), hexchar (n mod 16)]"

text \<open>
  The parser on the signatures used below: \<open>FunctionFragment.from(s).inputs\<close>. A
  parenthesised group parses as type \<open>tuple\<close> with its components; a parameter without a
  name has the name \<open>null\<close>.
\<close>

definition ref_fragments :: "(string \<times> ParamType list) list" where
  "ref_fragments =
     [(''func()'', []),
      (''func(uint256)'', [ParamType None ''uint256'' None]),
      (''func(uint256 x)'', [ParamType (Some ''x'') ''uint256'' None]),
      (''func(uint8[2] xs)'', [ParamType (Some ''xs'') ''uint8[2]'' None]),
      (''func(bytes32 x)'', [ParamType (Some ''x'') ''bytes32'' None]),
      (''func(bytes32 bytes32)'', [ParamType (Some ''bytes32'') ''bytes32'' None]),
      (''func(bool ok,uint8[] xs,address who,string note)'',
         [ParamType (Some ''ok'') ''bool'' None, ParamType (Some ''xs'') ''uint8[]'' None,
          ParamType (Some ''who'') ''address'' None, ParamType (Some ''note'') ''string'' None]),
      (''func((uint8[] a,uint8 b) t)'',
         [ParamType (Some ''t'') ''tuple''
            (Some [ParamType (Some ''a'') ''uint8[]'' None, ParamType (Some ''b'') ''uint8'' None])]),
      (''func((uint8 a,uint8[] b,uint8 c) t)'',
         [ParamType (Some ''t'') ''tuple''
            (Some [ParamType (Some ''a'') ''uint8'' None, ParamType (Some ''b'') ''uint8[]'' None,
                   ParamType (Some ''c'') ''uint8'' None])])]"

definition ref_FunctionFragment_from :: "string \<Rightarrow> string + ParamType list" where
  "ref_FunctionFragment_from s =
     (case map_of ref_fragments s of
        Some inputs \<Rightarrow> Inr inputs
      | None \<Rightarrow> Inl ''outside the fragment'')"

definition ref_getDefaultValue :: "ParamType list \<Rightarrow> string + unit" where
  "ref_getDefaultValue inputs =
     (if inputs \<in> set (map snd ref_fragments) then Inr () else Inl ''outside the fragment'')"

text \<open>
  The parser reads a parameter character by character: a parenthesised group is still
  allowed after the first characters of the name, and after the group the name goes on.
  The pieces \<open>ipfs\<close> and \<open>Hash\<close> written around a group are thus joined into one name.
  \<open>joined_fragments\<close> adds this input to the table.
\<close>

definition joined_fragments :: "(string \<times> ParamType list) list" where
  "joined_fragments =
     ref_fragments @
     [(''func(bytes32 ipfs(bool)Hash)'',
         [ParamType (Some ''ipfsHash'') ''bytes32'' (Some [ParamType None ''bool'' None])])]"

definition joined_FunctionFragment_from :: "string \<Rightarrow> string + ParamType list" where
  "joined_FunctionFragment_from s =
     (case map_of joined_fragments s of
        Some inputs \<Rightarrow> Inr inputs
      | None \<Rightarrow> Inl ''outside the fragment'')"

definition joined_getDefaultValue :: "ParamType list \<Rightarrow> string + unit" where
  "joined_getDefaultValue inputs =
     (if inputs \<in> set (map snd joined_fragments) then Inr () else Inl ''outside the fragment'')"

text \<open>
  The codec on the inputs used below: the signatures, the values handed to \<open>encode\<close>, the
  bytes, and the values \<open>decode\<close> returns for them (integers of at most 48 bits as
  numbers, wider ones as \<open>BigNumber\<close>, tuples and arrays as arrays).
\<close>

definition value_t1 :: jsval where
  "value_t1 = JArray [JArray [JNumber 1, JNumber 2], JNumber 3]"

definition data_t1 :: string where
  "data_t1 = ''0x'' @ concat (map abi_word [32, 64, 3, 2, 1, 2])"

definition value_t2 :: jsval where
  "value_t2 = JArray [JNumber 1, JArray [JNumber 2, JNumber 3], JNumber 4]"

definition data_t2 :: string where
  "data_t2 = ''0x'' @ concat (map abi_word [32, 1, 96, 4, 2, 2, 3])"

definition data_x :: string where
  "data_x = ''0x'' @ abi_word 5"

definition data_hi :: string where
  "data_hi = ''0x6869'' @ replicate 60 (CHR ''0'')"

definition ref_codec :: "(string list \<times> jsval list \<times> string \<times> jsval list) list" where
  "ref_codec =
     [([], [], ''0x'', []),
      ([''uint256 x''], [JNumber 5], data_x, [JBigNumber 5]),
      ([''bytes32 x''], [JString data_hi], data_hi, [JString data_hi]),
      ([''(uint8[] a,uint8 b) t''], [value_t1], data_t1, [value_t1]),
      ([''(uint8 a,uint8[] b,uint8 c) t''], [value_t2], data_t2, [value_t2])]"

definition ref_abi_encode :: "string list \<Rightarrow> jsval list \<Rightarrow> string + string" where
  "ref_abi_encode types vals =
     (if types = [''bytes32''] \<and> length vals = 1 then ethers_encode_bytes32 (hd vals)
      else case find (\<lambda>(ts, vs, bs, ds). ts = types \<and> vs = vals) ref_codec of
             Some (ts, vs, bs, ds) \<Rightarrow> Inr bs
           | None \<Rightarrow> Inl ''outside the fragment'')"

definition ref_abi_decode :: "string list \<Rightarrow> string \<Rightarrow> string + jsval list" where
  "ref_abi_decode types data =
     (case find (\<lambda>(ts, vs, bs, ds). ts = types \<and> bs = data) ref_codec of
        Some (ts, vs, bs, ds) \<Rightarrow> Inr ds
      | None \<Rightarrow> Inl ''outside the fragment'')"

text \<open>The base58btc alphabet and codec of the CID library (the base-x algorithm).\<close>

definition b58_alphabet :: string where
  "b58_alphabet = ''123456789ABCDEFGHJKLMNPQRSTUVWXYZabcdefghijkmnopqrstuvwxyz''"

fun index_of :: "'a \<Rightarrow> 'a list \<Rightarrow> nat option" where
  "index_of x [] = None"
| "index_of x (y # ys) = (if x = y then Some 0 else map_option Suc (index_of x ys))"

text \<open>The digits of a number in a base, most significant first; none for zero.\<close>

function digits_of :: "nat \<Rightarrow> nat \<Rightarrow> nat list" where
  "digits_of b n = (if n = 0 \<or> b < 2 then [] else digits_of b (n div b) @ [n mod b])"
  by pat_completeness auto
termination
  by (relation "measure (\<lambda>(b, n). n)") auto

declare digits_of.simps [simp del]

definition number_of :: "nat \<Rightarrow> nat list \<Rightarrow> nat" where
  "number_of b ds = foldl (\<lambda>a d. a * b + d) 0 ds"

definition base58btc_encode :: "byte list \<Rightarrow> string" where
  "base58btc_encode bs =
     replicate (length (takeWhile (\<lambda>b. b = 0) bs)) (CHR ''1'') @
     map (\<lambda>d. b58_alphabet ! d) (digits_of 58 (number_of 256 (map unat bs)))"

definition base58btc_decode :: "string \<Rightarrow> byte list option" where
  "base58btc_decode s =
     (if list_all (\<lambda>c. index_of c b58_alphabet \<noteq> None) s then
        (let ds = map (\<lambda>c. the (index_of c b58_alphabet)) s in
         Some (replicate (length (takeWhile (\<lambda>d. d = 0) ds)) 0 @
               map of_nat (digits_of 256 (number_of 58 ds))))
      else None)"

text \<open>
  \<open>CID.parse\<close> on version-0 identifiers: a base58btc string starting with \<open>Q\<close> whose bytes
  are the SHA-256 multihash header (18, 32) and a digest of 32 bytes. A string that starts
  with none of the multibase prefixes is rejected by the library as here; identifiers of
  version 1 are outside the fragment.
\<close>

fun ref_CID_parse :: "jsval \<Rightarrow> string + CID" where
  "ref_CID_parse (JString (c # cs)) =
     (if c = CHR ''Q'' then
        (case base58btc_decode (c # cs) of
           None \<Rightarrow> Inl ''Non-base58btc character''
         | Some bs \<Rightarrow>
             if take 2 bs = [18, 32] \<and> length bs = 34
             then Inr \<lparr> cid_version = 0, cid_code = 112,
                        cid_multihash = \<lparr> mh_digest = drop 2 bs, mh_code = 18, mh_size = 32,
                                          mh_bytes = bs \<rparr>,
                        cid_bytes = bs \<rparr>
             else Inl ''Incorrect length'')
      else Inl ''To parse non base32 or base58btc encoded CID multibase decoder must be provided'')"
| "ref_CID_parse _ = Inl ''Unexpected end of data''"

text \<open>\<open>CID.createV0(digest)\<close>: the multihash must be SHA-256; the bytes are the digest's.\<close>

definition ref_CID_createV0 :: "MultihashDigest \<Rightarrow> string + CID" where
  "ref_CID_createV0 d =
     (if mh_code d \<noteq> 18 then Inl ''Version 0 CID must use SHA-256 Multihash encoding''
      else Inr \<lparr> cid_version = 0, cid_code = 112, cid_multihash = d, cid_bytes = mh_bytes d \<rparr>)"

text \<open>\<open>toString()\<close> of a freshly created version-0 identifier: base58btc of its bytes.\<close>

definition ref_CID_toString :: "CID \<Rightarrow> string" where
  "ref_CID_toString c = base58btc_encode (cid_bytes c)"

definition ref_lib :: lib where
  "ref_lib =
     \<lparr> FunctionFragment_from = ref_FunctionFragment_from,
       getDefaultValue = ref_getDefaultValue,
       abi_encode = ref_abi_encode,
       abi_decode = ref_abi_decode,
       isBytesLike = ethers_isBytesLike,
       formatBytes32String = ethers_formatBytes32String,
       CID_parse = ref_CID_parse,
       CID_createV0 = ref_CID_createV0,
       CID_toString = ref_CID_toString \<rparr>"

text \<open>The same libraries, with the parser on the larger table.\<close>

definition joined_lib :: lib where
  "joined_lib =
     ref_lib \<lparr> FunctionFragment_from := joined_FunctionFragment_from,
               getDefaultValue := joined_getDefaultValue \<rparr>"

section \<open>Concrete schemas\<close>

text \<open>The descriptors the constructor builds for the schemas used in the examples.\<close>

definition schema_x :: "Descriptor list" where
  "schema_x =
     [\<lparr> si_name = Some ''x'', si_type = ''uint256'', si_value = JString ''0'',
        si_signature = ''uint256 x'' \<rparr>]"

definition schema_a :: "Descriptor list" where
  "schema_a =
     [\<lparr> si_name = None, si_type = ''uint256'', si_value = JString ''0'',
        si_signature = ''uint256'' \<rparr>]"

definition schema_f :: "Descriptor list" where
  "schema_f =
     [\<lparr> si_name = Some ''xs'', si_type = ''uint8[2]'', si_value = JString ''0'',
        si_signature = ''uint8[2] xs'' \<rparr>]"

definition schema_j :: "Descriptor list" where
  "schema_j =
     [\<lparr> si_name = Some ''ipfsHash'', si_type = ''bytes32'', si_value = JString [],
        si_signature = ''bytes32 ipfsHash'' \<rparr>]"

definition schema_b :: "Descriptor list" where
  "schema_b =
     [\<lparr> si_name = Some ''x'', si_type = ''bytes32'', si_value = JString [],
        si_signature = ''bytes32 x'' \<rparr>]"

definition schema_h :: "Descriptor list" where
  "schema_h =
     [\<lparr> si_name = Some ''bytes32'', si_type = ''bytes32'', si_value = JString [],
        si_signature = ''bytes32 bytes32'' \<rparr>]"

definition schema_d :: "Descriptor list" where
  "schema_d =
     [\<lparr> si_name = Some ''ok'', si_type = ''bool'', si_value = JBoolean False,
        si_signature = ''bool ok'' \<rparr>,
      \<lparr> si_name = Some ''xs'', si_type = ''uint8[]'', si_value = JArray [],
        si_signature = ''uint8[] xs'' \<rparr>,
      \<lparr> si_name = Some ''who'', si_type = ''address'', si_value = JString ZERO_ADDRESS,
        si_signature = ''address who'' \<rparr>,
      \<lparr> si_name = Some ''note'', si_type = ''string'', si_value = JString [],
        si_signature = ''string note'' \<rparr>]"

definition schema_t1 :: "Descriptor list" where
  "schema_t1 =
     [\<lparr> si_name = Some ''t'', si_type = ''(uint8[],uint8)'', si_value = JArray [],
        si_signature = ''(uint8[] a,uint8 b) t'' \<rparr>]"

definition schema_t2 :: "Descriptor list" where
  "schema_t2 =
     [\<lparr> si_name = Some ''t'', si_type = ''(uint8,uint8[],uint8)'', si_value = JArray [],
        si_signature = ''(uint8 a,uint8[] b,uint8 c) t'' \<rparr>]"

text \<open>Fields supplied to \<open>encodeData\<close> in the examples.\<close>

definition param_sig :: Param where
  "param_sig = \<lparr> si_name = ''x'', si_type = ''uint256 x'', si_value = JNumber 5 \<rparr>"

definition param_plain :: Param where
  "param_plain = \<lparr> si_name = ''x'', si_type = ''uint256'', si_value = JNumber 5 \<rparr>"

definition param_anon :: Param where
  "param_anon = \<lparr> si_name = [], si_type = ''uint256'', si_value = JNumber 5 \<rparr>"

definition param_spaced :: Param where
  "param_spaced = \<lparr> si_name = ''x'', si_type = ''uint 256'', si_value = JNumber 5 \<rparr>"

definition param_hi :: Param where
  "param_hi = \<lparr> si_name = ''x'', si_type = ''bytes32'', si_value = JString ''hi'' \<rparr>"

definition param_long :: Param where
  "param_long =
     \<lparr> si_name = ''x'', si_type = ''bytes32'', si_value = JString (replicate 32 (CHR ''a'')) \<rparr>"

definition param_t1 :: Param where
  "param_t1 = \<lparr> si_name = ''t'', si_type = ''(uint8[],uint8)'', si_value = value_t1 \<rparr>"

definition param_t2 :: Param where
  "param_t2 = \<lparr> si_name = ''t'', si_type = ''(uint8,uint8[],uint8)'', si_value = value_t2 \<rparr>"

text \<open>
  A version-0 identifier, the digest of its SHA-256 multihash, and the same bytes as
  numbers in base 256 and in base 58.
\<close>

definition cid0 :: string where
  "cid0 = ''QmWATWQ7fVPP2EFGu71UkfnqhYXDYH566qy47CnJDgvs8u''"

definition param_cid :: Param where
  "param_cid = \<lparr> si_name = ''ipfsHash'', si_type = ''bytes32'', si_value = JString cid0 \<rparr>"

definition digest0 :: "byte list" where
  "digest0 = [116, 65, 5, 119, 17, 16, 150, 205, 129, 122, 63, 174, 215, 134, 48, 242,
              36, 86, 54, 190, 222, 212, 18, 211, 178, 18, 162, 224, 155, 165, 147, 202]"

definition nats0 :: "nat list" where
  "nats0 = [18, 32, 116, 65, 5, 119, 17, 16, 150, 205, 129, 122, 63, 174, 215, 134, 48, 242,
            36, 86, 54, 190, 222, 212, 18, 211, 178, 18, 162, 224, 155, 165, 147, 202]"

definition digits0 :: "nat list" where
  "digits0 = [23, 44, 29, 9, 26, 29, 23, 6, 38, 28, 22, 22, 1, 13, 14, 15, 52, 6, 0, 27, 43, 38,
              45, 48, 40, 31, 30, 12, 31, 16, 4, 5, 5, 48, 56, 3, 6, 11, 45, 17, 12, 39, 53, 50,
              7, 52]"

section \<open>String operations\<close>

lemma prefix_replace_all:
  "CHR ''b'' \<notin> set q \<Longrightarrow> prefix q (replace_all ''ipfsHash'' ''bytes32'' s) \<Longrightarrow> prefix q s"
proof (induction q arbitrary: s)
  case Nil
  then show ?case by simp
next
  case (Cons x q)
  show ?case
  proof (cases s)
    case Nil
    with Cons.prems show ?thesis by simp
  next
    case (Cons c cs)
    show ?thesis
    proof (cases "prefix ''ipfsHash'' (c # cs)")
      case True
      with Cons.prems local.Cons show ?thesis by auto
    next
      case False
      with Cons.prems local.Cons
      have "x = c" and "prefix q (replace_all ''ipfsHash'' ''bytes32'' cs)"
        by auto
      moreover from Cons.prems have "CHR ''b'' \<notin> set q" by simp
      ultimately show ?thesis using Cons.IH local.Cons by simp
    qed
  qed
qed

text \<open>No occurrence of the pseudo-type survives the replacement, and none is created by it.\<close>

lemma replace_all_no_occurrence:
  "pat = ''ipfsHash'' \<Longrightarrow> rep = ''bytes32'' \<Longrightarrow> \<not> sublist ''ipfsHash'' (replace_all pat rep s)"
proof (induction pat rep s rule: replace_all.induct)
  case (1 pat rep)
  then show ?case by simp
next
  case (2 pat rep c cs)
  show ?case
  proof (cases "prefix pat (c # cs)")
    case True
    with 2 have IH: "\<not> sublist ''ipfsHash'' (replace_all pat rep (drop (length pat - 1) cs))"
      by auto
    from True 2
    have "replace_all pat rep (c # cs) =
            ''bytes32'' @ replace_all pat rep (drop (length pat - 1) cs)"
      by auto
    with IH show ?thesis
      by (simp add: sublist_Cons_right)
  next
    case False
    with 2 have IH: "\<not> sublist ''ipfsHash'' (replace_all pat rep cs)" by auto
    from False have eq: "replace_all pat rep (c # cs) = c # replace_all pat rep cs" by simp
    have "\<not> prefix ''ipfsHash'' (c # replace_all pat rep cs)"
    proof
      assume p: "prefix ''ipfsHash'' (c # replace_all pat rep cs)"
      then have c: "c = CHR ''i''"
        and "prefix ''pfsHash'' (replace_all ''ipfsHash'' ''bytes32'' cs)"
        using 2 by auto
      then have "prefix ''pfsHash'' cs"
        using prefix_replace_all [of "''pfsHash''" cs] by simp
      with c have "prefix ''ipfsHash'' (c # cs)" by simp
      with False 2 show False by simp
    qed
    with IH eq show ?thesis
      by (simp add: sublist_Cons_right)
  qed
qed

lemma sublist_func_wrapper:
  assumes "sublist ''ipfsHash'' (''func('' @ s @ '')'')"
  shows "sublist ''ipfsHash'' s"
proof -
  from assms have "sublist ''ipfsHash'' (s @ '')'')"
    by (simp add: sublist_Cons_right)
  then consider "sublist ''ipfsHash'' s" | "sublist ''ipfsHash'' '')''"
    | xs1 xs2 where "''ipfsHash'' = xs1 @ xs2" "suffix xs1 s" "prefix xs2 '')''"
    unfolding sublist_append by blast
  then show ?thesis
  proof cases
    case 1
    then show ?thesis .
  next
    case 2
    then have False by (simp add: sublist_Cons_right)
    then show ?thesis ..
  next
    case 3
    from 3(3) have "xs2 = [] \<or> xs2 = '')''"
      by (cases xs2) (auto simp: prefix_Cons)
    then show ?thesis
    proof
      assume "xs2 = []"
      with 3 have "suffix ''ipfsHash'' s" by simp
      then show ?thesis by (rule suffix_imp_sublist)
    next
      assume "xs2 = '')''"
      with 3(1) have "last ''ipfsHash'' = CHR '')''"
        by (metis last_appendR last.simps list.distinct(1))
      then show ?thesis by simp
    qed
  qed
qed

section \<open>The constructor: descriptors and default values\<close>

lemma constructor_params:
  assumes "constructor L schema = Inr enc"
  shows "\<exists>inputs.
           FunctionFragment_from L (''func('' @ replace_all ''ipfsHash'' ''bytes32'' schema @ '')'')
             = Inr inputs \<and> enc = map schemaItemOf inputs"
  using assms by (auto simp: constructor_def Let_def thrown_def split: sum.splits)

lemma schemaItemOf_name: "si_name (schemaItemOf p) = pt_name p"
  by (simp add: schemaItemOf_def Let_def split: prod.splits)

lemma schemaItemOf_value:
  "si_value (schemaItemOf p) =
     (if str_includes (si_type (schemaItemOf p)) ''[]'' then JArray []
      else getDefaultValueForTypeName (pt_type p))"
  by (simp add: schemaItemOf_def Let_def TUPLE_ARRAY_TYPE_def str_includes_def)

lemmas ref_constructor_defs =
  constructor_def ref_lib_def ref_FunctionFragment_from_def ref_fragments_def thrown_def
  ref_getDefaultValue_def schemaItemOf_def Let_def TUPLE_TYPE_def TUPLE_ARRAY_TYPE_def
  str_includes_def getDefaultValueForTypeName_def sublist_Cons_right with_name_def

lemma constructor_schema_x: "constructor ref_lib ''uint256 x'' = Inr schema_x"
  by (simp add: ref_constructor_defs schema_x_def)

lemma constructor_schema_a: "constructor ref_lib ''uint256'' = Inr schema_a"
  by (simp add: ref_constructor_defs schema_a_def)

lemma constructor_schema_f: "constructor ref_lib ''uint8[2] xs'' = Inr schema_f"
  by (simp add: ref_constructor_defs schema_f_def)

lemma constructor_schema_b: "constructor ref_lib ''bytes32 x'' = Inr schema_b"
  by (simp add: ref_constructor_defs schema_b_def)

lemma constructor_schema_h: "constructor ref_lib ''ipfsHash ipfsHash'' = Inr schema_h"
  by (simp add: ref_constructor_defs schema_h_def)

lemma constructor_schema_d:
  "constructor ref_lib ''bool ok,uint8[] xs,address who,string note'' = Inr schema_d"
  by (simp add: ref_constructor_defs schema_d_def)

lemma constructor_schema_t1: "constructor ref_lib ''(uint8[] a,uint8 b) t'' = Inr schema_t1"
  by (simp add: ref_constructor_defs schema_t1_def)

lemma constructor_schema_t2: "constructor ref_lib ''(uint8 a,uint8[] b,uint8 c) t'' = Inr schema_t2"
  by (simp add: ref_constructor_defs schema_t2_def)

lemma constructor_schema_j: "constructor joined_lib ''ipfsHash ipfs(bool)Hash'' = Inr schema_j"
  by (simp add: constructor_def joined_lib_def ref_lib_def joined_FunctionFragment_from_def
      joined_fragments_def ref_fragments_def thrown_def joined_getDefaultValue_def
      schemaItemOf_def Let_def TUPLE_TYPE_def TUPLE_ARRAY_TYPE_def str_includes_def
      getDefaultValueForTypeName_def sublist_Cons_right with_name_def schema_j_def)

text \<open>The parser of the reference instance reports contiguous pieces of its input as names.\<close>

lemma ref_parser_contiguous:
  assumes "FunctionFragment_from ref_lib txt' = Inr inputs" and "p \<in> set inputs"
    and "pt_name p = Some n"
  shows "sublist n txt'"
proof -
  from assms(1) have "map_of ref_fragments txt' = Some inputs"
    by (simp add: ref_lib_def ref_FunctionFragment_from_def split: option.splits)
  then have "(txt', inputs) \<in> set ref_fragments"
    by (rule map_of_SomeD)
  with assms(2,3) show ?thesis
    unfolding ref_fragments_def
    by (auto simp: sublist_Cons_right)
qed

text \<open>
  Claim C5, amended. The constructor replaces every occurrence of \<open>ipfsHash\<close> in the
  schema string, field names included, so the text handed to the parser never contains
  \<open>ipfsHash\<close>. With a parser that reports as names only contiguous pieces of the text it
  parsed, no descriptor of a constructed encoder has a name containing \<open>ipfsHash\<close>, and
  the condition of the \<open>encodeData\<close> branch that calls \<open>decodeIpfsValue\<close> (type \<open>bytes32\<close> and
  name \<open>ipfsHash\<close>) is false for every descriptor. A parser that joins the pieces of a name
  written around a parenthesised group, as the parser of the ABI library does, gives the
  name \<open>ipfsHash\<close> for the schema \<open>ipfsHash ipfs(bool)Hash\<close>, and the branch is taken.
\<close>

theorem constructor_no_ipfsHash_name:
  assumes "\<forall>parsed inputs. FunctionFragment_from L parsed = Inr inputs \<longrightarrow>
             (\<forall>p \<in> set inputs. \<forall>n. pt_name p = Some n \<longrightarrow> sublist n parsed)"
    and "constructor L schema = Inr enc"
  shows "\<not> str_includes (replace_all ''ipfsHash'' ''bytes32'' schema) ''ipfsHash'' \<and>
         (\<exists>inputs.
            FunctionFragment_from L
              (''func('' @ replace_all ''ipfsHash'' ''bytes32'' schema @ '')'') = Inr inputs \<and>
            map si_name enc = map pt_name inputs) \<and>
         (\<forall>s \<in> set enc.
            (\<forall>n. si_name s = Some n \<longrightarrow> \<not> str_includes n ''ipfsHash'') \<and>
            \<not> (si_type s = ''bytes32'' \<and> si_name s = Some ''ipfsHash''))"
proof -
  let ?fixed = "replace_all ''ipfsHash'' ''bytes32'' schema"
  have fixed: "\<not> sublist ''ipfsHash'' ?fixed"
    by (rule replace_all_no_occurrence) simp_all
  from constructor_params [OF assms(2)] obtain inputs where
    parse: "FunctionFragment_from L (''func('' @ ?fixed @ '')'') = Inr inputs"
    and enc: "enc = map schemaItemOf inputs"
    by blast
  have name: "\<not> sublist ''ipfsHash'' n" if "s \<in> set enc" and "si_name s = Some n" for s n
  proof
    assume occ: "sublist ''ipfsHash'' n"
    from that enc obtain p where p: "p \<in> set inputs" and "pt_name p = Some n"
      by (auto simp: schemaItemOf_name)
    with assms(1) parse have "sublist n (''func('' @ ?fixed @ '')'')"
      by blast
    with occ have "sublist ''ipfsHash'' (''func('' @ ?fixed @ '')'')"
      by (rule sublist_order.order_trans)
    then have "sublist ''ipfsHash'' ?fixed"
      by (rule sublist_func_wrapper)
    with fixed show False ..
  qed
  have "si_name s \<noteq> Some ''ipfsHash''" if "s \<in> set enc" for s
    using name [OF that, of "''ipfsHash''"] by auto
  moreover from enc have "map si_name enc = map pt_name inputs"
    by (simp add: schemaItemOf_name)
  ultimately show ?thesis
    using fixed name parse by (auto simp: str_includes_def)
qed

theorem constructor_no_ipfsHash_name_witness:
  "constructor ref_lib ''ipfsHash ipfsHash'' = Inr schema_h \<and>
   replace_all ''ipfsHash'' ''bytes32'' ''ipfsHash ipfsHash'' = ''bytes32 bytes32'' \<and>
   \<not> str_includes ''bytes32 bytes32'' ''ipfsHash'' \<and>
   si_name (hd schema_h) = Some ''bytes32'' \<and>
   si_type (hd schema_h) = ''bytes32'' \<and>
   \<not> str_includes ''bytes32'' ''ipfsHash''"
proof -
  have contract: "\<forall>parsed inputs. FunctionFragment_from ref_lib parsed = Inr inputs \<longrightarrow>
             (\<forall>p \<in> set inputs. \<forall>n. pt_name p = Some n \<longrightarrow> sublist n parsed)"
    using ref_parser_contiguous by blast
  from constructor_no_ipfsHash_name [OF contract constructor_schema_h] constructor_schema_h
  show ?thesis
    by (simp add: schema_h_def)
qed

text \<open>
  Claim C9, amended. The default value stored in a descriptor is the empty sequence
  exactly when the canonical type contains the two characters \<open>[]\<close> anywhere: for an array
  such as \<open>uint8[]\<close>, but also for a tuple with an array component such as
  \<open>(uint8[],uint8)\<close>, and not for an array of fixed size such as \<open>uint8[2]\<close>. Otherwise it is
  \<open>false\<close> for \<open>bool\<close>, the string \<open>0\<close> for a parsed type containing \<open>uint\<close>, the zero address
  for \<open>address\<close>, and the empty string for anything else, looked up on the parsed type
  (\<open>tuple\<close> for a tuple).
\<close>

theorem constructor_default_value:
  assumes "constructor L schema = Inr enc" and "i < length enc"
  shows "\<exists>inputs.
           FunctionFragment_from L (''func('' @ replace_all ''ipfsHash'' ''bytes32'' schema @ '')'')
             = Inr inputs \<and>
           length inputs = length enc \<and>
           si_value (enc ! i) =
             (if str_includes (si_type (enc ! i)) ''[]'' then JArray []
              else if pt_type (inputs ! i) = ''bool'' then JBoolean False
              else if str_includes (pt_type (inputs ! i)) ''uint'' then JString ''0''
              else if pt_type (inputs ! i) = ''address'' then JString ZERO_ADDRESS
              else JString [])"
proof -
  from constructor_params [OF assms(1)] obtain inputs where
    parse: "FunctionFragment_from L (''func('' @ replace_all ''ipfsHash'' ''bytes32'' schema @ '')'')
              = Inr inputs"
    and enc: "enc = map schemaItemOf inputs"
    by blast
  from enc assms(2) have "enc ! i = schemaItemOf (inputs ! i)" by simp
  then have "si_value (enc ! i) =
     (if str_includes (si_type (enc ! i)) ''[]'' then JArray []
      else getDefaultValueForTypeName (pt_type (inputs ! i)))"
    by (simp add: schemaItemOf_value)
  with parse enc show ?thesis
    by (auto simp: getDefaultValueForTypeName_def)
qed

theorem constructor_default_value_witness:
  "constructor ref_lib ''bool ok,uint8[] xs,address who,string note'' = Inr schema_d \<and>
   (3 :: nat) < length schema_d \<and>
   si_value (schema_d ! 0) = JBoolean False \<and>
   si_value (schema_d ! 1) = JArray [] \<and>
   si_value (schema_d ! 2) = JString ZERO_ADDRESS \<and>
   si_value (schema_d ! 3) = JString [] \<and>
   constructor ref_lib ''uint256 x'' = Inr schema_x \<and>
   si_value (schema_x ! 0) = JString ''0'' \<and>
   constructor ref_lib ''(uint8[] a,uint8 b) t'' = Inr schema_t1 \<and>
   si_type (schema_t1 ! 0) = ''(uint8[],uint8)'' \<and>
   si_value (schema_t1 ! 0) = JArray [] \<and>
   constructor ref_lib ''uint8[2] xs'' = Inr schema_f \<and>
   si_type (schema_f ! 0) = ''uint8[2]'' \<and>
   si_value (schema_f ! 0) = JString ''0''"
  using constructor_default_value [OF constructor_schema_d, of 0]
    constructor_default_value [OF constructor_schema_d, of 1]
    constructor_default_value [OF constructor_schema_d, of 2]
    constructor_default_value [OF constructor_schema_d, of 3]
    constructor_default_value [OF constructor_schema_x, of 0]
    constructor_default_value [OF constructor_schema_t1, of 0]
    constructor_default_value [OF constructor_schema_f, of 0]
    constructor_schema_d constructor_schema_x constructor_schema_t1 constructor_schema_f
  by (simp add: schema_d_def schema_x_def schema_t1_def schema_f_def)

text \<open>
  The claim as stated fails for the schema \<open>(uint8[] a,uint8 b) t\<close>: the field is a tuple,
  not an array, and the lookup on its type name \<open>tuple\<close> gives the empty string, but the
  stored default is the empty sequence, because the canonical type \<open>(uint8[],uint8)\<close>
  contains \<open>[]\<close>.
\<close>

theorem constructor_default_tuple_counterexample:
  "constructor ref_lib ''(uint8[] a,uint8 b) t'' = Inr schema_t1 \<and>
   FunctionFragment_from ref_lib ''func((uint8[] a,uint8 b) t)'' =
     Inr [ParamType (Some ''t'') ''tuple''
            (Some [ParamType (Some ''a'') ''uint8[]'' None, ParamType (Some ''b'') ''uint8'' None])] \<and>
   si_type (hd schema_t1) = ''(uint8[],uint8)'' \<and>
   getDefaultValueForTypeName ''tuple'' = JString [] \<and>
   si_value (hd schema_t1) = JArray []"
  using constructor_schema_t1
  by (simp add: schema_t1_def ref_lib_def ref_FunctionFragment_from_def ref_fragments_def
      getDefaultValueForTypeName_def str_includes_def sublist_Cons_right)

section \<open>encodeData\<close>

text \<open>
  Claim C7. When the number of supplied fields differs from the number of descriptors,
  \<open>encodeData\<close> fails with the field-count error, whatever the fields hold and whatever the
  libraries would do: nothing is validated, transformed or encoded.
\<close>

theorem encodeData_field_count:
  "length params \<noteq> length schema \<Longrightarrow> encodeData L schema params = Inl InvalidNumberOrValues"
  by (simp add: encodeData_def)

theorem encodeData_field_count_witness:
  "length ([] :: Param list) \<noteq> length schema_x \<and>
   encodeData ref_lib schema_x [] = Inl InvalidNumberOrValues \<and>
   encodeData ref_lib schema_x
     [\<lparr> si_name = ''x'', si_type = ''uint256'', si_value = JNumber 5 \<rparr>,
      \<lparr> si_name = ''y'', si_type = ''uint256'', si_value = JNumber 6 \<rparr>] = Inl InvalidNumberOrValues"
  using encodeData_field_count [of "[]" schema_x ref_lib]
    encodeData_field_count
      [of "[\<lparr> si_name = ''x'', si_type = ''uint256'', si_value = JNumber 5 \<rparr>,
            \<lparr> si_name = ''y'', si_type = ''uint256'', si_value = JNumber 6 \<rparr>]" schema_x ref_lib]
  by (simp add: schema_x_def)

lemma encodeValues_Inr:
  "encodeValues L schema params = Inr data \<Longrightarrow>
     length data = length schema \<and> length schema \<le> length params \<and>
     (\<forall>i<length schema. encodeItem L (schema ! i) (params ! i) = Inr (data ! i))"
proof (induction L schema params arbitrary: data rule: encodeValues.induct)
  case (1 L params)
  then show ?case by simp
next
  case (2 L schemaItem schema)
  then show ?case by simp
next
  case (3 L schemaItem schema param params)
  from "3.prems" obtain v rest where
    v: "encodeItem L schemaItem param = Inr v"
    and rest: "encodeValues L schema params = Inr rest"
    and data: "data = v # rest"
    by (auto split: sum.splits)
  from "3.IH" [OF v rest] v data show ?case
    by (auto simp: nth_Cons split: nat.splits)
qed

text \<open>The loop stops at the first field that is rejected, with that field's error.\<close>

lemma encodeValues_first_error:
  "length params = length schema \<Longrightarrow> i < length schema \<Longrightarrow>
   \<forall>j<i. \<exists>v. encodeItem L (schema ! j) (params ! j) = Inr v \<Longrightarrow>
   encodeItem L (schema ! i) (params ! i) = Inl e \<Longrightarrow>
   encodeValues L schema params = Inl e"
proof (induction L schema params arbitrary: i rule: encodeValues.induct)
  case (1 L params)
  then show ?case by simp
next
  case (2 L schemaItem schema)
  then show ?case by simp
next
  case (3 L schemaItem schema param params)
  show ?case
  proof (cases i)
    case 0
    with "3.prems" show ?thesis by simp
  next
    case (Suc k)
    with "3.prems" obtain v where v: "encodeItem L schemaItem param = Inr v"
      by fastforce
    from "3.prems" Suc have "\<forall>j<k. \<exists>v. encodeItem L (schema ! j) (params ! j) = Inr v"
      by fastforce
    with "3.prems" Suc have "encodeValues L schema params = Inl e"
      using "3.IH" [OF v, of k] by simp
    with v show ?thesis by simp
  qed
qed

lemma sanitize_no_space: "c \<in> set (sanitize t) \<Longrightarrow> \<not> is_space c"
  by (simp add: sanitize_def)

lemma is_space_blank: "is_space (CHR '' '')"
  by (simp add: is_space_def)

lemma with_name_no_space:
  assumes "\<forall>c \<in> set (xs @ with_name t name @ ys). \<not> is_space c"
  shows "with_name t name = t"
proof (cases name)
  case None
  then show ?thesis by (simp add: with_name_def)
next
  case (Some n)
  show ?thesis
  proof (cases "n = []")
    case True
    with Some show ?thesis by (simp add: with_name_def)
  next
    case False
    with Some have "CHR '' '' \<in> set (xs @ with_name t name @ ys)"
      by (simp add: with_name_def)
    with assms is_space_blank show ?thesis by blast
  qed
qed

lemma set_join: "x \<in> set xs \<Longrightarrow> set x \<subseteq> set (join sep xs)"
  by (induction sep xs rule: join.induct) auto

lemma components_no_space:
  assumes "\<forall>c \<in> set (join sep (map (\<lambda>c. with_name (pt_type c) (pt_name c)) cs)). \<not> is_space c"
  shows "map (\<lambda>c. with_name (pt_type c) (pt_name c)) cs = map pt_type cs"
proof (rule map_cong [OF refl])
  fix c assume "c \<in> set cs"
  then have "with_name (pt_type c) (pt_name c) \<in> set (map (\<lambda>c. with_name (pt_type c) (pt_name c)) cs)"
    by simp
  from set_join [OF this, of sep] assms
  have "\<forall>k \<in> set ([] @ with_name (pt_type c) (pt_name c) @ []). \<not> is_space k"
    by auto
  then show "with_name (pt_type c) (pt_name c) = pt_type c"
    by (rule with_name_no_space)
qed

text \<open>
  The comparison with the signature never accepts what the comparison with the canonical
  type rejects: the caller's string has lost its whitespace, and a signature without
  whitespace is the canonical type.
\<close>

lemma signature_alternative_dead:
  assumes "sanitize t = si_signature (schemaItemOf p)"
  shows "sanitize t = si_type (schemaItemOf p)"
proof -
  let ?cs = "case pt_components p of None \<Rightarrow> [] | Some cs \<Rightarrow> cs"
  let ?full = "join '','' (map (\<lambda>c. with_name (pt_type c) (pt_name c)) ?cs)"
  from assms have nosp: "\<forall>c \<in> set (si_signature (schemaItemOf p)). \<not> is_space c"
    using sanitize_no_space by metis
  have "si_signature (schemaItemOf p) = si_type (schemaItemOf p)"
  proof (cases "pt_type p = TUPLE_TYPE")
    case True
    then have sig: "si_signature (schemaItemOf p) = ''('' @ ?full @ '')'' @ with_name [] (pt_name p)"
      by (simp add: schemaItemOf_def Let_def)
    with nosp have "\<forall>c \<in> set ((''('' @ ?full @ '')'') @ with_name [] (pt_name p) @ []). \<not> is_space c"
      by simp
    then have suffix: "with_name [] (pt_name p) = []"
      by (rule with_name_no_space)
    from nosp sig have "\<forall>c \<in> set ?full. \<not> is_space c" by simp
    then have "map (\<lambda>c. with_name (pt_type c) (pt_name c)) ?cs = map pt_type ?cs"
      by (rule components_no_space)
    then have "?full = join '','' (map pt_type ?cs)"
      by (simp only:)
    with True suffix show ?thesis
      by (simp add: schemaItemOf_def Let_def)
  next
    case False
    note not_tuple = this
    show ?thesis
    proof (cases "pt_type p = TUPLE_ARRAY_TYPE")
      case True
      with not_tuple
      have sig: "si_signature (schemaItemOf p) =
                   ''('' @ ?full @ '')'' @ ''[]'' @ with_name [] (pt_name p)"
        by (simp add: schemaItemOf_def Let_def)
      with nosp
      have "\<forall>c \<in> set ((''('' @ ?full @ '')'' @ ''[]'') @ with_name [] (pt_name p) @ []). \<not> is_space c"
        by simp
      then have suffix: "with_name [] (pt_name p) = []"
        by (rule with_name_no_space)
      from nosp sig have "\<forall>c \<in> set ?full. \<not> is_space c" by simp
      then have "map (\<lambda>c. with_name (pt_type c) (pt_name c)) ?cs = map pt_type ?cs"
        by (rule components_no_space)
      then have "?full = join '','' (map pt_type ?cs)"
        by (simp only:)
      with True not_tuple suffix show ?thesis
        by (simp add: schemaItemOf_def Let_def)
    next
      case False
      with not_tuple
      have sig: "si_signature (schemaItemOf p) = with_name (pt_type p) (pt_name p)"
        and ty: "si_type (schemaItemOf p) = pt_type p"
        by (simp_all add: schemaItemOf_def Let_def)
      with nosp have "\<forall>c \<in> set ([] @ with_name (pt_type p) (pt_name p) @ []). \<not> is_space c"
        by simp
      then have "with_name (pt_type p) (pt_name p) = pt_type p"
        by (rule with_name_no_space)
      with sig ty show ?thesis by simp
    qed
  qed
  with assms show ?thesis by simp
qed

lemma thrown_not_type_error: "map_sum id JString (thrown r) \<noteq> Inl (IncompatibleParamType t)"
  by (cases r) (simp_all add: thrown_def)

lemma encodeBytes32Value_not_type_error:
  "encodeBytes32Value L v \<noteq> Inl (IncompatibleParamType t)"
  by (simp add: encodeBytes32Value_def thrown_not_type_error split: sum.splits)

lemma decodeIpfsValue_not_type_error: "decodeIpfsValue L v \<noteq> Inl (IncompatibleParamType t)"
  by (simp add: decodeIpfsValue_def encodeBytes32Value_not_type_error split: sum.splits)

lemma encodeItem_type_check_iff:
  "(encodeItem L s p = Inl (IncompatibleParamType (sanitize (si_type p)))) =
   (\<not> (sanitize (si_type p) = si_type s \<or> sanitize (si_type p) = si_signature s \<or>
        (sanitize (si_type p) = ''ipfsHash'' \<and> si_type s = ''bytes32'')))"
  by (auto simp: encodeItem_def Let_def thrown_not_type_error decodeIpfsValue_not_type_error)

lemmas eval_encode_defs =
  encodeData_def encodeItem_def sanitize_def is_space_def Let_def thrown_def ref_lib_def

text \<open>The loop of \<open>encodeData\<close> throws the type error of the first field it rejects.\<close>

lemma encodeData_type_error:
  assumes "length params = length schema" and "i < length schema"
    and "\<forall>j<i. \<exists>v. encodeItem L (schema ! j) (params ! j) = Inr v"
    and "encodeItem L (schema ! i) (params ! i) = Inl (IncompatibleParamType t)"
  shows "encodeData L schema params = Inl (IncompatibleParamType t)"
  using assms by (simp add: encodeData_def encodeValues_first_error)

text \<open>
  For a descriptor built by the constructor the type check therefore reduces to two
  alternatives: the canonical type, or \<open>ipfsHash\<close> for \<open>bytes32\<close>.
\<close>

lemma encodeItem_type_check_constructed:
  "(encodeItem L (schemaItemOf q) p = Inl (IncompatibleParamType (sanitize (si_type p)))) =
   (\<not> (sanitize (si_type p) = si_type (schemaItemOf q) \<or>
        (sanitize (si_type p) = ''ipfsHash'' \<and> si_type (schemaItemOf q) = ''bytes32'')))"
  using signature_alternative_dead [of "si_type p" q]
  by (auto simp: encodeItem_type_check_iff)

lemma encodeData_plain: "encodeData ref_lib schema_x [param_plain] = Inr data_x"
  by code_simp

lemma encodeData_spaced: "encodeData ref_lib schema_x [param_spaced] = Inr data_x"
  by code_simp

lemma encodeData_sig:
  "encodeData ref_lib schema_x [param_sig] = Inl (IncompatibleParamType ''uint256x'')"
  by (simp add: schema_x_def param_sig_def eval_encode_defs)

text \<open>
  A field declared without a name has the name \<open>null\<close>, which no caller's string equals:
  the empty string is rejected by the name check.
\<close>

lemma encodeData_anonymous:
  "constructor ref_lib ''uint256'' = Inr schema_a \<and>
   encodeData ref_lib schema_a [param_anon] = Inl (IncompatibleParamName [])"
  using constructor_schema_a
  by (simp add: schema_a_def param_anon_def eval_encode_defs)

text \<open>
  Claim C2. The type check compares the caller's type string, whitespace removed, with
  the canonical type, with the signature, and with \<open>ipfsHash\<close> for a \<open>bytes32\<close> field. For
  the schema \<open>uint256 x\<close> the types \<open>uint256\<close> and \<open>uint 256\<close> are accepted, but the
  descriptor's full signature \<open>uint256 x\<close>, which the claim says is accepted, is rejected
  with the incompatible-type error: it is compared as \<open>uint256x\<close> with a signature that
  keeps its space.
\<close>

theorem encodeData_full_signature_rejected:
  "constructor ref_lib ''uint256 x'' = Inr schema_x \<and>
   si_type (hd schema_x) = ''uint256'' \<and>
   si_signature (hd schema_x) = ''uint256 x'' \<and>
   si_type param_sig = ''uint256 x'' \<and>
   encodeData ref_lib schema_x [param_plain] = Inr data_x \<and>
   encodeData ref_lib schema_x [param_spaced] = Inr data_x \<and>
   encodeData ref_lib schema_x [param_sig] = Inl (IncompatibleParamType ''uint256x'')"
  using constructor_schema_x encodeData_plain encodeData_spaced encodeData_sig
  by (simp add: schema_x_def param_sig_def)

lemma encodeItem_bytes32_string:
  assumes "si_type s = ''bytes32''" and "si_name s \<noteq> Some ''ipfsHash''"
    and "si_value p = JString str" and "\<not> isBytesLike L (JString str)"
  shows "encodeItem L s p = Inr v \<longleftrightarrow>
           (sanitize (si_type p) = ''bytes32'' \<or> sanitize (si_type p) = si_signature s \<or>
            sanitize (si_type p) = ''ipfsHash'') \<and> Some (si_name p) = si_name s \<and>
           (\<exists>h. formatBytes32String L (JString str) = Inr h \<and> v = JString h)"
  using assms
  by (cases "formatBytes32String L (JString str)") (auto simp: encodeItem_def Let_def thrown_def)

lemma format_hi:
  "ethers_formatBytes32String (JString ''hi'') = Inr data_hi"
  by code_simp

lemma length_utf8_long: "length (toUtf8Bytes (replicate 32 (CHR ''a''))) = 32"
  by (simp add: toUtf8Bytes_def length_concat comp_def sum_list_replicate)

lemma format_long:
  "ethers_formatBytes32String (JString (replicate 32 (CHR ''a''))) =
     Inl ''bytes32 string must be less than 32 bytes''"
  by (simp add: length_utf8_long Let_def)

lemma not_bytesLike_hi: "\<not> ethers_isBytesLike (JString ''hi'')"
  by (simp add: ethers_isHexString_def)

lemma not_bytesLike_long32: "\<not> ethers_isBytesLike (JString (replicate 32 (CHR ''a'')))"
  by (simp add: ethers_isHexString_def numeral_eq_Suc)

lemma encodeValues_hi:
  "encodeValues ref_lib schema_b [param_hi] =
     Inr [JString data_hi]"
  by code_simp

lemma encodeData_long:
  "encodeData ref_lib schema_b [param_long] =
     Inl (Thrown ''bytes32 string must be less than 32 bytes'')"
  by code_simp

text \<open>
  Claim C4, amended. For a descriptor of type \<open>bytes32\<close> not named \<open>ipfsHash\<close> and a string
  value that is not byte-like, the value handed to the codec is the result of
  \<open>formatBytes32String\<close> on the string; when that function throws, \<open>encodeData\<close> throws and
  produces no bytes. With the function of the ABI library the result is the UTF-8 bytes
  of the string padded with zeros to 32 bytes when they are at most 31, and an exception
  when they are more: nothing is truncated.
\<close>

theorem encodeData_bytes32_string:
  assumes "length params = length schema" and "i < length schema"
    and "si_type (schema ! i) = ''bytes32''" and "si_name (schema ! i) \<noteq> Some ''ipfsHash''"
    and "si_value (params ! i) = JString str" and "\<not> isBytesLike L (JString str)"
  shows "(encodeValues L schema params = Inr data \<longrightarrow>
            (\<exists>h. formatBytes32String L (JString str) = Inr h \<and> data ! i = JString h)) \<and>
         (formatBytes32String L (JString str) = Inl m \<longrightarrow>
            (\<exists>e. encodeData L schema params = Inl e)) \<and>
         (formatBytes32String L = ethers_formatBytes32String \<longrightarrow>
          encodeValues L schema params = Inr data \<longrightarrow>
            length (toUtf8Bytes str) \<le> 31 \<and>
            data ! i = JString (''0x'' @ hexlify (toUtf8Bytes str @
                                                 replicate (32 - length (toUtf8Bytes str)) 0))) \<and>
         (formatBytes32String L = ethers_formatBytes32String \<longrightarrow>
          31 < length (toUtf8Bytes str) \<longrightarrow>
            (\<exists>e. encodeData L schema params = Inl e))"
proof -
  have item: "\<exists>h. formatBytes32String L (JString str) = Inr h \<and> data ! i = JString h"
    if ok: "encodeValues L schema params = Inr data" for data
  proof -
    from encodeValues_Inr [OF ok] assms(2)
    have "encodeItem L (schema ! i) (params ! i) = Inr (data ! i)" by simp
    with assms(3-6) show ?thesis
      by (simp add: encodeItem_bytes32_string)
  qed
  have throws: "\<exists>e. encodeData L schema params = Inl e"
    if err: "formatBytes32String L (JString str) = Inl m" for m
  proof (cases "encodeValues L schema params")
    case (Inl e)
    with assms(1) show ?thesis by (simp add: encodeData_def)
  next
    case (Inr data)
    from item [OF Inr] err show ?thesis by simp
  qed
  have ethers: "formatBytes32String L (JString str) =
      (if length (toUtf8Bytes str) \<le> 31
       then Inr (''0x'' @ hexlify (toUtf8Bytes str @ replicate (32 - length (toUtf8Bytes str)) 0))
       else Inl ''bytes32 string must be less than 32 bytes'')"
    if "formatBytes32String L = ethers_formatBytes32String"
    using that by (simp add: Let_def)
  show ?thesis
  proof (intro conjI impI)
    assume "encodeValues L schema params = Inr data"
    then show "\<exists>h. formatBytes32String L (JString str) = Inr h \<and> data ! i = JString h"
      by (rule item)
  next
    assume "formatBytes32String L (JString str) = Inl m"
    then show "\<exists>e. encodeData L schema params = Inl e"
      by (rule throws)
  next
    assume lib: "formatBytes32String L = ethers_formatBytes32String"
      and ok: "encodeValues L schema params = Inr data"
    from item [OF ok] ethers [OF lib] show "length (toUtf8Bytes str) \<le> 31"
      by (auto split: if_splits)
  next
    assume lib: "formatBytes32String L = ethers_formatBytes32String"
      and ok: "encodeValues L schema params = Inr data"
    from item [OF ok] ethers [OF lib]
    show "data ! i = JString (''0x'' @ hexlify (toUtf8Bytes str @
                                                replicate (32 - length (toUtf8Bytes str)) 0))"
      by (auto split: if_splits)
  next
    assume lib: "formatBytes32String L = ethers_formatBytes32String"
      and long: "31 < length (toUtf8Bytes str)"
    from ethers [OF lib] long
    have "formatBytes32String L (JString str) = Inl ''bytes32 string must be less than 32 bytes''"
      by simp
    then show "\<exists>e. encodeData L schema params = Inl e"
      by (rule throws)
  qed
qed

theorem encodeData_bytes32_string_witness:
  "length [param_hi] = length schema_b \<and> (0 :: nat) < length schema_b \<and>
   si_type (schema_b ! 0) = ''bytes32'' \<and> si_name (schema_b ! 0) \<noteq> Some ''ipfsHash'' \<and>
   si_value ([param_hi] ! 0) = JString ''hi'' \<and> \<not> isBytesLike ref_lib (JString ''hi'') \<and>
   encodeValues ref_lib schema_b [param_hi] =
     Inr [JString data_hi] \<and>
   formatBytes32String ref_lib (JString ''hi'') = Inr data_hi \<and>
   si_value ([param_long] ! 0) = JString (replicate 32 (CHR ''a'')) \<and>
   \<not> isBytesLike ref_lib (JString (replicate 32 (CHR ''a''))) \<and>
   formatBytes32String ref_lib (JString (replicate 32 (CHR ''a''))) =
     Inl ''bytes32 string must be less than 32 bytes'' \<and>
   encodeData ref_lib schema_b [param_long] =
     Inl (Thrown ''bytes32 string must be less than 32 bytes'')"
  using encodeData_bytes32_string [where L = ref_lib and schema = schema_b
      and params = "[param_hi]" and i = 0 and str = "''hi''"
      and data = "[JString data_hi]"]
    encodeData_bytes32_string [where L = ref_lib and schema = schema_b
      and params = "[param_long]" and i = 0 and str = "replicate 32 (CHR ''a'')"
      and m = "''bytes32 string must be less than 32 bytes''"]
    encodeValues_hi encodeData_long format_hi format_long not_bytesLike_hi not_bytesLike_long32
  by (simp add: schema_b_def param_hi_def param_long_def ref_lib_def)

text \<open>
  The claim as stated fails for the schema \<open>bytes32 x\<close> and a string of 32 characters:
  \<open>encodeData\<close> throws instead of encoding a truncated value.
\<close>

theorem encodeData_bytes32_long_counterexample:
  "constructor ref_lib ''bytes32 x'' = Inr schema_b \<and>
   \<not> ethers_isBytesLike (JString (replicate 32 (CHR ''a''))) \<and>
   length (toUtf8Bytes (replicate 32 (CHR ''a''))) = 32 \<and>
   encodeData ref_lib schema_b [param_long] =
     Inl (Thrown ''bytes32 string must be less than 32 bytes'')"
  using constructor_schema_b not_bytesLike_long32 length_utf8_long encodeData_long by simp

section \<open>The content-hash path\<close>

lemma ethers_encode_bytes32_not_bytesLike:
  "\<not> ethers_isBytesLike (JString s) \<Longrightarrow> \<exists>m. ethers_encode_bytes32 (JString s) = Inl m"
  by auto

lemma ipfs_hello:
  "decodeIpfsValue ref_lib (JString ''hello'') =
     Inr (JString (''0x68656c6c6f'' @ replicate 54 (CHR ''0'')))"
  by code_simp

lemma ipfs_long:
  "decodeIpfsValue ref_lib (JString (replicate 40 (CHR ''a''))) =
     Inl (Thrown ''bytes32 string must be less than 32 bytes'')"
  by code_simp

lemma not_bytesLike_hello: "\<not> ethers_isBytesLike (JString ''hello'')"
  by (simp add: ethers_isHexString_def)

lemma not_bytesLike_long40: "\<not> ethers_isBytesLike (JString (replicate 40 (CHR ''a'')))"
  by (simp add: ethers_isHexString_def numeral_eq_Suc)

lemma not_cid_hello:
  "ref_CID_parse (JString ''hello'') =
     Inl ''To parse non base32 or base58btc encoded CID multibase decoder must be provided''"
  by simp

lemma not_cid_long:
  "ref_CID_parse (JString (replicate 40 (CHR ''a''))) =
     Inl ''To parse non base32 or base58btc encoded CID multibase decoder must be provided''"
  by (simp add: numeral_eq_Suc)

text \<open>
  Claim C3, amended. For a value that is neither byte-like nor a parseable identifier,
  \<open>decodeIpfsValue\<close> falls back to \<open>encodeBytes32Value\<close>: it returns the value itself when
  the codec accepts it as \<open>bytes32\<close>, and otherwise the result of \<open>formatBytes32String\<close>,
  whose exception is not caught. With the functions of the ABI library, a string is
  returned padded to 32 bytes when its UTF-8 encoding has at most 31 bytes, and the call
  throws when it has more.
\<close>

theorem decodeIpfsValue_fallback:
  assumes "\<not> isBytesLike L val" and "CID_parse L val = Inl m"
  shows "decodeIpfsValue L val = encodeBytes32Value L val \<and>
         (abi_encode L [''bytes32''] [val] = Inr b \<longrightarrow> decodeIpfsValue L val = Inr val) \<and>
         (abi_encode L [''bytes32''] [val] = Inl m1 \<longrightarrow> formatBytes32String L val = Inr h \<longrightarrow>
            decodeIpfsValue L val = Inr (JString h)) \<and>
         (abi_encode L [''bytes32''] [val] = Inl m1 \<longrightarrow> formatBytes32String L val = Inl m2 \<longrightarrow>
            decodeIpfsValue L val = Inl (Thrown m2)) \<and>
         (val = JString str \<longrightarrow> isBytesLike L val = ethers_isBytesLike val \<longrightarrow>
          abi_encode L [''bytes32''] [val] = ethers_encode_bytes32 val \<longrightarrow>
          formatBytes32String L val = ethers_formatBytes32String val \<longrightarrow>
            decodeIpfsValue L val =
              (if length (toUtf8Bytes str) \<le> 31
               then Inr (JString (''0x'' @ hexlify (toUtf8Bytes str @
                                                    replicate (32 - length (toUtf8Bytes str)) 0)))
               else Inl (Thrown ''bytes32 string must be less than 32 bytes'')))"
proof -
  have fallback: "decodeIpfsValue L val = encodeBytes32Value L val"
    using assms by (simp add: decodeIpfsValue_def)
  have ethers: "decodeIpfsValue L val =
              (if length (toUtf8Bytes str) \<le> 31
               then Inr (JString (''0x'' @ hexlify (toUtf8Bytes str @
                                                    replicate (32 - length (toUtf8Bytes str)) 0)))
               else Inl (Thrown ''bytes32 string must be less than 32 bytes''))"
    if "val = JString str" "isBytesLike L val = ethers_isBytesLike val"
      "abi_encode L [''bytes32''] [val] = ethers_encode_bytes32 val"
      "formatBytes32String L val = ethers_formatBytes32String val"
  proof -
    from that assms(1) have "\<not> ethers_isBytesLike (JString str)" by simp
    then obtain m' where "ethers_encode_bytes32 (JString str) = Inl m'"
      using ethers_encode_bytes32_not_bytesLike by blast
    with that fallback show ?thesis
      by (simp add: encodeBytes32Value_def thrown_def Let_def)
  qed
  from fallback ethers show ?thesis
    by (simp add: encodeBytes32Value_def thrown_def)
qed

theorem decodeIpfsValue_fallback_witness:
  "\<not> isBytesLike ref_lib (JString ''hello'') \<and>
   CID_parse ref_lib (JString ''hello'') =
     Inl ''To parse non base32 or base58btc encoded CID multibase decoder must be provided'' \<and>
   decodeIpfsValue ref_lib (JString ''hello'') = encodeBytes32Value ref_lib (JString ''hello'') \<and>
   decodeIpfsValue ref_lib (JString ''hello'') =
     Inr (JString (''0x68656c6c6f'' @ replicate 54 (CHR ''0'')))"
  using decodeIpfsValue_fallback [where L = ref_lib and val = "JString ''hello''"
      and m = "''To parse non base32 or base58btc encoded CID multibase decoder must be provided''"]
    not_bytesLike_hello not_cid_hello ipfs_hello
  by (simp add: ref_lib_def)

text \<open>
  The claim as stated fails for a string of 40 characters \<open>a\<close>, which is neither byte-like
  nor an identifier: the call throws.
\<close>

theorem decodeIpfsValue_throws_counterexample:
  "\<not> ethers_isBytesLike (JString (replicate 40 (CHR ''a''))) \<and>
   ref_CID_parse (JString (replicate 40 (CHR ''a''))) =
     Inl ''To parse non base32 or base58btc encoded CID multibase decoder must be provided'' \<and>
   decodeIpfsValue ref_lib (JString (replicate 40 (CHR ''a''))) =
     Inl (Thrown ''bytes32 string must be less than 32 bytes'')"
  using not_bytesLike_long40 not_cid_long ipfs_long by simp

section \<open>decodeData\<close>

lemma decodeData_x:
  "decodeData ref_lib schema_x data_x =
     Inr [\<lparr> sd_name = Some ''x'', sd_type = ''uint256'', sd_signature = ''uint256 x'',
            sd_value = \<lparr> di_name = Some ''x'', di_type = ''uint256'',
                         di_value = Plain (JBigNumber 5) \<rparr> \<rparr>]"
  by code_simp

lemma decodeData_t1:
  "decodeData ref_lib schema_t1 data_t1 =
     Inl TypeError"
  by code_simp

text \<open>
  Claim C10. \<open>isEncodedDataValid\<close> is true when \<open>decodeData\<close> returns and false when it
  throws, whatever it throws; being a total function to \<open>bool\<close>, it propagates nothing.
\<close>

theorem isEncodedDataValid_decodeData:
  "(decodeData L schema data = Inr r \<longrightarrow> isEncodedDataValid L schema data) \<and>
   (decodeData L schema data = Inl e \<longrightarrow> \<not> isEncodedDataValid L schema data)"
  by (simp add: isEncodedDataValid_def)

theorem isEncodedDataValid_decodeData_witness:
  "decodeData ref_lib schema_x data_x =
     Inr [\<lparr> sd_name = Some ''x'', sd_type = ''uint256'', sd_signature = ''uint256 x'',
            sd_value = \<lparr> di_name = Some ''x'', di_type = ''uint256'',
                         di_value = Plain (JBigNumber 5) \<rparr> \<rparr>] \<and>
   isEncodedDataValid ref_lib schema_x data_x \<and>
   decodeData ref_lib schema_t1 data_t1 =
     Inl TypeError \<and>
   \<not> isEncodedDataValid ref_lib schema_t1 data_t1"
  using isEncodedDataValid_decodeData [where L = ref_lib and schema = schema_x
      and data = data_x
      and r = "[\<lparr> sd_name = Some ''x'', sd_type = ''uint256'', sd_signature = ''uint256 x'',
                  sd_value = \<lparr> di_name = Some ''x'', di_type = ''uint256'',
                               di_value = Plain (JBigNumber 5) \<rparr> \<rparr>]"]
    isEncodedDataValid_decodeData [where L = ref_lib and schema = schema_t1
      and data = data_t1 and e = TypeError]
    decodeData_x decodeData_t1
  by simp

section \<open>decodeData: names of tuple components\<close>

lemma labelValues_Inr:
  "labelValues components rawValues = Inr named \<Longrightarrow>
     length rawValues \<le> length components \<and>
     map si_value named = rawValues \<and>
     map si_name named = map pt_name (take (length rawValues) components) \<and>
     map si_type named = map pt_type (take (length rawValues) components)"
proof (induction components rawValues arbitrary: named rule: labelValues.induct)
  case (1 components)
  then show ?case by simp
next
  case (2 v rawValues)
  then show ?case by simp
next
  case (3 component components v rawValues)
  from "3.prems" obtain rest where
    rest: "labelValues components rawValues = Inr rest"
    and named: "named = \<lparr> si_name = pt_name component, si_type = pt_type component,
                           si_value = v \<rparr> # rest"
    by (auto split: sum.splits)
  from "3.IH" [OF rest] named show ?case by simp
qed

lemma nameTuples_Inr:
  "nameTuples components vals = Inr namedValues \<Longrightarrow>
     length namedValues = length vals \<and>
     (\<forall>n<length vals. nameTuple components (vals ! n) = Inr (namedValues ! n))"
proof (induction vals arbitrary: namedValues)
  case Nil
  then show ?case by simp
next
  case (Cons val vals)
  from Cons.prems obtain named rest where
    named: "nameTuple components val = Inr named"
    and rest: "nameTuples components vals = Inr rest"
    and all: "namedValues = named # rest"
    by (auto split: sum.splits)
  from Cons.IH [OF rest] named all show ?case
    by (auto simp: nth_Cons split: nat.splits)
qed

lemma decodeItems_Inr:
  "decodeItems L schema vals = Inr recs \<Longrightarrow>
     length recs = length schema \<and>
     (\<forall>i<length schema.
        decodeItem L (schema ! i) (if i < length vals then Some (vals ! i) else None)
          = Inr (recs ! i))"
proof (induction schema arbitrary: vals recs)
  case Nil
  then show ?case by simp
next
  case (Cons s schema)
  from Cons.prems obtain d ds where
    d: "decodeItem L s (case vals of [] \<Rightarrow> None | v # _ \<Rightarrow> Some v) = Inr d"
    and ds: "decodeItems L schema (tl vals) = Inr ds"
    and recs: "recs = d # ds"
    by (auto split: sum.splits)
  from Cons.IH [OF ds] have len: "length ds = length schema"
    and nth: "\<And>i. i < length schema \<Longrightarrow>
      decodeItem L (schema ! i) (if i < length (tl vals) then Some (tl vals ! i) else None)
        = Inr (ds ! i)"
    by simp_all
  show ?case
  proof (intro conjI allI impI)
    show "length recs = length (s # schema)" using len recs by simp
  next
    fix i assume i: "i < length (s # schema)"
    show "decodeItem L ((s # schema) ! i) (if i < length vals then Some (vals ! i) else None)
            = Inr (recs ! i)"
    proof (cases i)
      case 0
      with d recs show ?thesis by (cases vals) simp_all
    next
      case (Suc k)
      with i have "k < length schema" by simp
      from nth [OF this] Suc recs show ?thesis
        by (cases vals) (auto split: if_splits)
    qed
  qed
qed

lemma filter_position:
  "j < length vs \<Longrightarrow> P (vs ! j) \<Longrightarrow>
     length (filter P (take j vs)) < length (filter P vs) \<and>
     filter P vs ! length (filter P (take j vs)) = vs ! j"
proof (induction vs arbitrary: j)
  case Nil
  then show ?case by simp
next
  case (Cons v vs)
  show ?case
  proof (cases j)
    case 0
    with Cons.prems show ?thesis by simp
  next
    case (Suc k)
    with Cons.prems Cons.IH [of k] show ?thesis by simp
  qed
qed

lemma filter_position_less:
  assumes "i < j" and "j \<le> length vs" and "\<not> P (vs ! i)"
  shows "length (filter P (take j vs)) < j"
proof -
  from assms have "vs ! i \<in> set (take j vs)"
    by (metis in_set_conv_nth length_take min.absorb2 nth_take)
  with assms(3) have "length (filter P (take j vs)) < length (take j vs)"
    by (meson length_filter_less)
  with assms(2) show ?thesis by simp
qed

lemma decodeItem_Inr:
  assumes "decodeItem L s v = Inr d"
    and "FunctionFragment_from L (''func('' @ si_signature s @ '')'') = Inr inputs"
  shows "length inputs = 1 \<and>
         (\<exists>val inner. v = Some val \<and> nameValue s (pt_components (hd inputs)) val = Inr inner \<and>
            d = \<lparr> sd_name = si_name s, sd_type = si_type s, sd_signature = si_signature s,
                  sd_value = inner \<rparr>)"
  using assms
  by (auto simp: decodeItem_def thrown_def split: if_splits option.splits sum.splits)

text \<open>Whenever \<open>decodeData\<close> returns, it returns one record per descriptor, carrying the
  descriptor's name, canonical type and signature.\<close>

lemma decodeItem_names_types:
  "decodeItem L s v = Inr d \<Longrightarrow>
     sd_name d = si_name s \<and> sd_type d = si_type s \<and> sd_signature d = si_signature s"
  by (auto simp: decodeItem_def split: sum.splits if_splits option.splits)

lemma decodeData_names_types:
  assumes "decodeData L schema data = Inr recs"
  shows "length recs = length schema \<and>
         (\<forall>i<length schema.
            sd_name (recs ! i) = si_name (schema ! i) \<and>
            sd_type (recs ! i) = si_type (schema ! i) \<and>
            sd_signature (recs ! i) = si_signature (schema ! i))"
proof -
  from assms obtain vals where "decodeItems L schema vals = Inr recs"
    by (auto simp: decodeData_def thrown_def split: sum.splits)
  from decodeItems_Inr [OF this] show ?thesis
    using decodeItem_names_types by blast
qed

lemma encodeData_t2: "encodeData ref_lib schema_t2 [param_t2] = Inr data_t2"
  by code_simp

lemma abi_decode_t2: "abi_decode ref_lib (signatures schema_t2) data_t2 = Inr [value_t2]"
  by code_simp

lemma parse_t2:
  "FunctionFragment_from ref_lib (''func('' @ si_signature (schema_t2 ! 0) @ '')'') =
     Inr [ParamType (Some ''t'') ''tuple''
            (Some [ParamType (Some ''a'') ''uint8'' None, ParamType (Some ''b'') ''uint8[]'' None,
                   ParamType (Some ''c'') ''uint8'' None])]"
  by code_simp

lemma decodeData_t2:
  "decodeData ref_lib schema_t2 data_t2 =
     Inr [\<lparr> sd_name = Some ''t'', sd_type = ''(uint8,uint8[],uint8)'',
            sd_signature = ''(uint8 a,uint8[] b,uint8 c) t'',
            sd_value = \<lparr> di_name = Some ''t'', di_type = ''(uint8,uint8[],uint8)'',
                         di_value = Named
                           [\<lparr> si_name = Some ''a'', si_type = ''uint8'', si_value = JNumber 1 \<rparr>,
                            \<lparr> si_name = Some ''b'', si_type = ''uint8[]'', si_value = JNumber 4 \<rparr>] \<rparr> \<rparr>]"
  by code_simp

text \<open>
  Claim C6, amended. For a field whose re-parsed signature has components and whose
  decoded value is a non-empty array: when the first element is not an array (a tuple),
  the sub-values of object type (arrays and \<open>BigNumber\<close>s) are removed and the k-th of the
  remaining values is labelled with the name and the type of the k-th component, so that
  a remaining value that follows a removed one takes the name of an earlier component
  than its own; the removed sub-values are not in the output. When the first element is
  an array (a tuple array), every element is treated in this way.
\<close>

theorem decodeData_component_names:
  assumes dec: "decodeData L schema data = Inr recs"
    and vals: "abi_decode L (signatures schema) data = Inr vals"
    and i: "i < length schema"
    and parse: "FunctionFragment_from L (''func('' @ si_signature (schema ! i) @ '')'') = Inr inputs"
    and comps: "pt_components (hd inputs) = Some components"
    and val: "vals ! i = JArray vs" and ne: "vs \<noteq> []"
  shows
   "(\<not> first_isArray (JArray vs) \<longrightarrow>
       (\<exists>named. di_value (sd_value (recs ! i)) = Named named \<and>
          map si_value named = filter (\<lambda>v. \<not> typeof_object v) vs \<and>
          map si_name named = map pt_name (take (length named) components) \<and>
          map si_type named = map pt_type (take (length named) components) \<and>
          (\<forall>j<length vs. \<forall>h<j. \<not> typeof_object (vs ! j) \<longrightarrow> typeof_object (vs ! h) \<longrightarrow>
             (\<exists>k<j. k < length named \<and> si_value (named ! k) = vs ! j \<and>
                     si_name (named ! k) = pt_name (components ! k) \<and>
                     si_type (named ! k) = pt_type (components ! k))))) \<and>
    (first_isArray (JArray vs) \<longrightarrow>
       (\<exists>namedValues. di_value (sd_value (recs ! i)) = NamedList namedValues \<and>
          length namedValues = length vs \<and>
          (\<forall>n<length vs. \<exists>raw. filter_raw (vs ! n) = Inr raw \<and>
             map si_value (namedValues ! n) = raw \<and>
             map si_name (namedValues ! n) = map pt_name (take (length raw) components) \<and>
             map si_type (namedValues ! n) = map pt_type (take (length raw) components))))"
proof -
  let ?P = "\<lambda>v. \<not> typeof_object v"
  from dec vals have "decodeItems L schema vals = Inr recs"
    by (simp add: decodeData_def thrown_def)
  from decodeItems_Inr [OF this] i
  have item: "decodeItem L (schema ! i) (if i < length vals then Some (vals ! i) else None)
                = Inr (recs ! i)"
    by simp
  from decodeItem_Inr [OF item parse] comps val obtain inner where
    inner: "nameValue (schema ! i) (Some components) (JArray vs) = Inr inner"
    and recd: "sd_value (recs ! i) = inner"
    by (auto split: if_splits)
  show ?thesis
  proof (intro conjI impI)
    assume single: "\<not> first_isArray (JArray vs)"
    with inner ne obtain named where
      named: "nameTuple components (JArray vs) = Inr named"
      and v: "di_value inner = Named named"
      by (auto simp: nameValue_def split: sum.splits)
    from named have "labelValues components (filter ?P vs) = Inr named"
      by (simp add: nameTuple_def)
    from labelValues_Inr [OF this]
    have le: "length (filter ?P vs) \<le> length components"
      and vals_eq: "map si_value named = filter ?P vs"
      and names_eq: "map si_name named = map pt_name (take (length (filter ?P vs)) components)"
      and types_eq: "map si_type named = map pt_type (take (length (filter ?P vs)) components)"
      by simp_all
    from vals_eq have len: "length named = length (filter ?P vs)"
      by (metis length_map)
    have shift: "\<exists>k<j. k < length named \<and> si_value (named ! k) = vs ! j \<and>
                     si_name (named ! k) = pt_name (components ! k) \<and>
                     si_type (named ! k) = pt_type (components ! k)"
      if j: "j < length vs" and h: "h < j" and raw: "\<not> typeof_object (vs ! j)"
        and obj: "typeof_object (vs ! h)" for j h
    proof -
      let ?k = "length (filter ?P (take j vs))"
      from filter_position [of j vs ?P] j raw
      have k: "?k < length (filter ?P vs)" and at: "filter ?P vs ! ?k = vs ! j"
        by simp_all
      from filter_position_less [of h j vs ?P] h j obj have kj: "?k < j" by simp
      from k len have kn: "?k < length named" by simp
      have "si_value (named ! ?k) = map si_value named ! ?k"
        using kn by simp
      with vals_eq at have 1: "si_value (named ! ?k) = vs ! j" by simp
      have "si_name (named ! ?k) = map si_name named ! ?k"
        using kn by simp
      with names_eq k le have 2: "si_name (named ! ?k) = pt_name (components ! ?k)" by simp
      have "si_type (named ! ?k) = map si_type named ! ?k"
        using kn by simp
      with types_eq k le have 3: "si_type (named ! ?k) = pt_type (components ! ?k)" by simp
      from kj kn 1 2 3 show ?thesis by blast
    qed
    from v recd vals_eq names_eq types_eq len shift
    show "\<exists>named. di_value (sd_value (recs ! i)) = Named named \<and>
          map si_value named = filter ?P vs \<and>
          map si_name named = map pt_name (take (length named) components) \<and>
          map si_type named = map pt_type (take (length named) components) \<and>
          (\<forall>j<length vs. \<forall>h<j. \<not> typeof_object (vs ! j) \<longrightarrow> typeof_object (vs ! h) \<longrightarrow>
             (\<exists>k<j. k < length named \<and> si_value (named ! k) = vs ! j \<and>
                     si_name (named ! k) = pt_name (components ! k) \<and>
                     si_type (named ! k) = pt_type (components ! k)))"
      by (intro exI [of _ named]) simp
  next
    assume array: "first_isArray (JArray vs)"
    with inner ne obtain namedValues where
      all: "nameTuples components vs = Inr namedValues"
      and v: "di_value inner = NamedList namedValues"
      by (auto simp: nameValue_def split: sum.splits)
    from nameTuples_Inr [OF all] have len: "length namedValues = length vs"
      and nth: "\<And>n. n < length vs \<Longrightarrow> nameTuple components (vs ! n) = Inr (namedValues ! n)"
      by simp_all
    have each: "\<exists>raw. filter_raw (vs ! n) = Inr raw \<and>
             map si_value (namedValues ! n) = raw \<and>
             map si_name (namedValues ! n) = map pt_name (take (length raw) components) \<and>
             map si_type (namedValues ! n) = map pt_type (take (length raw) components)"
      if "n < length vs" for n
    proof -
      from nth [OF that] obtain raw where
        raw: "filter_raw (vs ! n) = Inr raw"
        and lab: "labelValues components raw = Inr (namedValues ! n)"
        by (auto simp: nameTuple_def split: sum.splits)
      from labelValues_Inr [OF lab] raw show ?thesis by simp
    qed
    from v recd len each
    show "\<exists>namedValues. di_value (sd_value (recs ! i)) = NamedList namedValues \<and>
          length namedValues = length vs \<and>
          (\<forall>n<length vs. \<exists>raw. filter_raw (vs ! n) = Inr raw \<and>
             map si_value (namedValues ! n) = raw \<and>
             map si_name (namedValues ! n) = map pt_name (take (length raw) components) \<and>
             map si_type (namedValues ! n) = map pt_type (take (length raw) components))"
      by (intro exI [of _ namedValues]) simp
  qed
qed

theorem decodeData_component_names_witness:
  "decodeData ref_lib schema_t2 data_t2 =
     Inr [\<lparr> sd_name = Some ''t'', sd_type = ''(uint8,uint8[],uint8)'',
            sd_signature = ''(uint8 a,uint8[] b,uint8 c) t'',
            sd_value = \<lparr> di_name = Some ''t'', di_type = ''(uint8,uint8[],uint8)'',
                         di_value = Named
                           [\<lparr> si_name = Some ''a'', si_type = ''uint8'', si_value = JNumber 1 \<rparr>,
                            \<lparr> si_name = Some ''b'', si_type = ''uint8[]'', si_value = JNumber 4 \<rparr>] \<rparr> \<rparr>] \<and>
   abi_decode ref_lib (signatures schema_t2) data_t2 = Inr [value_t2] \<and>
   (0 :: nat) < length schema_t2 \<and>
   FunctionFragment_from ref_lib (''func('' @ si_signature (schema_t2 ! 0) @ '')'') =
     Inr [ParamType (Some ''t'') ''tuple''
            (Some [ParamType (Some ''a'') ''uint8'' None, ParamType (Some ''b'') ''uint8[]'' None,
                   ParamType (Some ''c'') ''uint8'' None])] \<and>
   [value_t2] ! 0 = JArray [JNumber 1, JArray [JNumber 2, JNumber 3], JNumber 4] \<and>
   \<not> first_isArray (JArray [JNumber 1, JArray [JNumber 2, JNumber 3], JNumber 4]) \<and>
   filter (\<lambda>v. \<not> typeof_object v) [JNumber 1, JArray [JNumber 2, JNumber 3], JNumber 4] =
     [JNumber 1, JNumber 4]"
  using decodeData_component_names [where L = ref_lib and schema = schema_t2 and data = data_t2
      and recs = "[\<lparr> sd_name = Some ''t'', sd_type = ''(uint8,uint8[],uint8)'',
            sd_signature = ''(uint8 a,uint8[] b,uint8 c) t'',
            sd_value = \<lparr> di_name = Some ''t'', di_type = ''(uint8,uint8[],uint8)'',
                         di_value = Named
                           [\<lparr> si_name = Some ''a'', si_type = ''uint8'', si_value = JNumber 1 \<rparr>,
                            \<lparr> si_name = Some ''b'', si_type = ''uint8[]'', si_value = JNumber 4 \<rparr>] \<rparr> \<rparr>]"
      and vals = "[value_t2]" and i = 0
      and inputs = "[ParamType (Some ''t'') ''tuple''
            (Some [ParamType (Some ''a'') ''uint8'' None, ParamType (Some ''b'') ''uint8[]'' None,
                   ParamType (Some ''c'') ''uint8'' None])]"
      and components = "[ParamType (Some ''a'') ''uint8'' None, ParamType (Some ''b'') ''uint8[]'' None,
                   ParamType (Some ''c'') ''uint8'' None]"
      and vs = "[JNumber 1, JArray [JNumber 2, JNumber 3], JNumber 4]"]
    decodeData_t2 abi_decode_t2 parse_t2
  by (simp add: value_t2_def schema_t2_def)

text \<open>
  The claim as stated fails for the schema \<open>(uint8 a,uint8[] b,uint8 c) t\<close> and the value
  \<open>[1, [2, 3], 4]\<close>: the array \<open>[2, 3]\<close> is not in the output, neither named nor unnamed.
\<close>

theorem decodeData_drops_composite_counterexample:
  "constructor ref_lib ''(uint8 a,uint8[] b,uint8 c) t'' = Inr schema_t2 \<and>
   encodeData ref_lib schema_t2 [param_t2] = Inr data_t2 \<and>
   si_value param_t2 = JArray [JNumber 1, JArray [JNumber 2, JNumber 3], JNumber 4] \<and>
   decodeData ref_lib schema_t2 data_t2 =
     Inr [\<lparr> sd_name = Some ''t'', sd_type = ''(uint8,uint8[],uint8)'',
            sd_signature = ''(uint8 a,uint8[] b,uint8 c) t'',
            sd_value = \<lparr> di_name = Some ''t'', di_type = ''(uint8,uint8[],uint8)'',
                         di_value = Named
                           [\<lparr> si_name = Some ''a'', si_type = ''uint8'', si_value = JNumber 1 \<rparr>,
                            \<lparr> si_name = Some ''b'', si_type = ''uint8[]'', si_value = JNumber 4 \<rparr>] \<rparr> \<rparr>] \<and>
   JArray [JNumber 2, JNumber 3] \<notin> set [JNumber 1, JNumber 4]"
  using constructor_schema_t2 encodeData_t2 decodeData_t2
  by (simp add: param_t2_def value_t2_def)

section \<open>decodeData after encodeData\<close>

lemma encodeData_t1: "encodeData ref_lib schema_t1 [param_t1] = Inr data_t1"
  by code_simp

text \<open>
  Claim C1. The round trip fails for the schema \<open>(uint8[] a,uint8 b) t\<close> and the value
  \<open>[[1, 2], 3]\<close>, which \<open>encodeData\<close> accepts: the first component of the decoded tuple is an
  array, so \<open>decodeData\<close> takes the tuple for a tuple array, calls \<open>filter\<close> on the number
  \<open>3\<close> and throws a \<open>TypeError\<close> instead of returning one record per field.
\<close>

theorem decodeData_throws_on_encoded_tuple:
  "constructor ref_lib ''(uint8[] a,uint8 b) t'' = Inr schema_t1 \<and>
   encodeData ref_lib schema_t1 [param_t1] = Inr data_t1 \<and>
   decodeData ref_lib schema_t1 data_t1 = Inl TypeError"
  using constructor_schema_t1 encodeData_t1 decodeData_t1 by simp

section \<open>Content identifiers: the round trip\<close>

lemma hexval_hexchar: "n < 16 \<Longrightarrow> hexval (hexchar n) = Some n"
proof -
  assume "n < 16"
  then have "n \<in> {0, 1, 2, 3, 4, 5, 6, 7, 8, 9, 10, 11, 12, 13, 14, 15}"
    by simp arith
  then show ?thesis
    by (elim insertE emptyE) (simp_all add: hexval_def hexchar_def)
qed

lemma byte_split: "(of_nat (16 * (unat b div 16) + unat b mod 16) :: byte) = b"
  by simp

lemma Buffer_from_hex_hexlify: "Buffer_from_hex (hexlify bs) = bs"
proof (induction bs)
  case Nil
  then show ?case by (simp add: hexlify_def)
next
  case (Cons b bs)
  have "unat b < 256" using unsigned_less [of b] by simp
  then have hi: "unat b div 16 < 16" by simp
  have lo: "unat b mod 16 < 16" by simp
  from Cons hi lo show ?case
    by (simp add: hexlify_def hexval_hexchar byte_split del: of_nat_add of_nat_mult)
qed

lemma digits_of_zero: "digits_of b 0 = []"
  by (subst digits_of.simps) simp

lemma digits_of_step:
  "2 \<le> b \<Longrightarrow> d < b \<Longrightarrow> n * b + d \<noteq> 0 \<Longrightarrow> digits_of b (n * b + d) = digits_of b n @ [d]"
  by (subst digits_of.simps) simp

lemma number_of_snoc: "number_of b (ds @ [d]) = number_of b ds * b + d"
  by (simp add: number_of_def)

lemma digits_of_number_of:
  "2 \<le> b \<Longrightarrow> list_all (\<lambda>d. d < b) ds \<Longrightarrow> ds = [] \<or> hd ds \<noteq> 0 \<Longrightarrow>
     digits_of b (number_of b ds) = ds"
proof (induction ds rule: rev_induct)
  case Nil
  then show ?case by (simp add: number_of_def digits_of_zero)
next
  case (snoc d ds)
  from snoc.prems have d: "d < b" and all: "list_all (\<lambda>d. d < b) ds" by simp_all
  show ?case
  proof (cases ds)
    case Nil
    with snoc.prems d show ?thesis
      using digits_of_step [of b d 0] by (simp add: number_of_def digits_of_zero)
  next
    case (Cons x xs)
    with snoc.prems have "hd ds \<noteq> 0" by simp
    with snoc.IH [OF snoc.prems(1) all] have IH: "digits_of b (number_of b ds) = ds" by simp
    with Cons have "number_of b ds \<noteq> 0"
      by (metis digits_of_zero list.distinct(1))
    with snoc.prems(1) have "number_of b ds * b + d \<noteq> 0" by simp
    with snoc.prems(1) d IH show ?thesis
      by (simp add: number_of_snoc digits_of_step)
  qed
qed

lemma length_hexlify: "length (hexlify bs) = 2 * length bs"
  by (induction bs) (simp_all add: hexlify_def)

text \<open>
  Claim C8. \<open>decodeQmHash\<close> builds a multihash with code 18, size 32 and the bytes 18, 32
  followed by the digest read from the hex string after its two-character prefix, and
  renders the version-0 identifier created from it. For an identifier that parses to a
  SHA-256 multihash, with a codec that encodes the 32-byte digest as its hex string and a
  CID library that renders the identifier created from the parsed multihash as the
  original string, \<open>decodeQmHash (encodeQmHash hash)\<close> is \<open>hash\<close>.
\<close>

theorem decodeQmHash_encodeQmHash:
  assumes "CID_parse L (JString hash) = Inr a"
    and "cid_multihash a = \<lparr> mh_digest = d, mh_code = 18, mh_size = 32, mh_bytes = 18 # 32 # d \<rparr>"
    and "abi_encode L [''bytes32''] [JBytes d] = Inr (''0x'' @ hexlify d)"
    and "CID_createV0 L (cid_multihash a) = Inr c" and "CID_toString L c = hash"
  shows "decodeQmHash L hexstr =
           (case CID_createV0 L \<lparr> mh_digest = Buffer_from_hex (drop 2 hexstr), mh_code = 18,
                                   mh_size = 32,
                                   mh_bytes = 18 # 32 # Buffer_from_hex (drop 2 hexstr) \<rparr> of
              Inl msg \<Rightarrow> Inl (Thrown msg)
            | Inr dCID \<Rightarrow> Inr (CID_toString L dCID)) \<and>
         encodeQmHash L hash = Inr (''0x'' @ hexlify d) \<and>
         decodeQmHash L (''0x'' @ hexlify d) = Inr hash"
proof (intro conjI)
  show "decodeQmHash L hexstr =
           (case CID_createV0 L \<lparr> mh_digest = Buffer_from_hex (drop 2 hexstr), mh_code = 18,
                                   mh_size = 32,
                                   mh_bytes = 18 # 32 # Buffer_from_hex (drop 2 hexstr) \<rparr> of
              Inl msg \<Rightarrow> Inl (Thrown msg)
            | Inr dCID \<Rightarrow> Inr (CID_toString L dCID))"
    by (simp add: decodeQmHash_def Let_def thrown_def split: sum.splits)
next
  from assms(1-3) show "encodeQmHash L hash = Inr (''0x'' @ hexlify d)"
    by (simp add: encodeQmHash_def thrown_def)
next
  have "Buffer_from_hex (drop 2 (''0x'' @ hexlify d)) = d"
    by (simp add: Buffer_from_hex_hexlify)
  with assms(2,4,5) show "decodeQmHash L (''0x'' @ hexlify d) = Inr hash"
    by (simp add: decodeQmHash_def Let_def thrown_def)
qed

lemma unat_bytes0: "map unat (18 # 32 # digest0) = nats0"
  by (simp add: digest0_def nats0_def)

lemma of_nat_bytes0: "map of_nat nats0 = 18 # 32 # digest0"
  by (simp add: digest0_def nats0_def)

lemma same_number: "number_of 58 digits0 = number_of 256 nats0"
  by (simp add: number_of_def digits0_def nats0_def)

lemma digits_cid0: "map (\<lambda>c. the (index_of c b58_alphabet)) cid0 = digits0"
  by (simp add: cid0_def b58_alphabet_def digits0_def)

lemma valid_cid0: "list_all (\<lambda>c. index_of c b58_alphabet \<noteq> None) cid0"
  by (simp add: cid0_def b58_alphabet_def)

lemma head_digits0: "takeWhile (\<lambda>d. d = 0) digits0 = []"
  by (simp add: digits0_def)

lemma head_bytes0: "takeWhile (\<lambda>b. b = 0) (18 # 32 # digest0) = []"
  by simp


lemma chars_digits0: "map (\<lambda>d. b58_alphabet ! d) digits0 = cid0"
  by (simp add: cid0_def b58_alphabet_def digits0_def)

lemma encode_cid0: "base58btc_encode (18 # 32 # digest0) = cid0"
proof -
  have "digits_of 58 (number_of 58 digits0) = digits0"
    by (rule digits_of_number_of) (simp_all add: digits0_def)
  then have "digits_of 58 (number_of 256 (map unat (18 # 32 # digest0))) = digits0"
    unfolding unat_bytes0 same_number .
  then show ?thesis
    unfolding base58btc_encode_def head_bytes0 by (simp add: chars_digits0)
qed

lemma decode_cid0: "base58btc_decode cid0 = Some (18 # 32 # digest0)"
proof -
  have "digits_of 256 (number_of 256 nats0) = nats0"
    by (rule digits_of_number_of) (simp_all add: nats0_def)
  then have "digits_of 256 (number_of 58 digits0) = nats0"
    by (simp add: same_number)
  then show ?thesis
    unfolding base58btc_decode_def Let_def digits_cid0 head_digits0
    using valid_cid0 by (simp add: of_nat_bytes0)
qed

lemma ref_CID_parse_Q:
  "s \<noteq> [] \<Longrightarrow> hd s = CHR ''Q'' \<Longrightarrow>
   ref_CID_parse (JString s) =
     (case base58btc_decode s of
           None \<Rightarrow> Inl ''Non-base58btc character''
         | Some bs \<Rightarrow>
             if take 2 bs = [18, 32] \<and> length bs = 34
             then Inr \<lparr> cid_version = 0, cid_code = 112,
                        cid_multihash = \<lparr> mh_digest = drop 2 bs, mh_code = 18, mh_size = 32,
                                          mh_bytes = bs \<rparr>,
                        cid_bytes = bs \<rparr>
             else Inl ''Incorrect length'')"
  by (cases s) simp_all

lemma length_digest0: "length digest0 = 32"
  by (simp add: digest0_def)

lemma parse_cid0:
  "ref_CID_parse (JString cid0) =
     Inr \<lparr> cid_version = 0, cid_code = 112,
           cid_multihash = \<lparr> mh_digest = digest0, mh_code = 18, mh_size = 32,
                             mh_bytes = 18 # 32 # digest0 \<rparr>,
           cid_bytes = 18 # 32 # digest0 \<rparr>"
proof -
  have "cid0 \<noteq> []" and "hd cid0 = CHR ''Q''"
    by (simp_all add: cid0_def)
  from ref_CID_parse_Q [OF this] show ?thesis
    by (simp add: decode_cid0 length_digest0)
qed

lemma encode_digest0:
  "ref_abi_encode [''bytes32''] [JBytes digest0] = Inr (''0x'' @ hexlify digest0)"
  by (simp add: ref_abi_encode_def digest0_def)

theorem decodeQmHash_encodeQmHash_witness:
  "CID_parse ref_lib (JString cid0) =
     Inr \<lparr> cid_version = 0, cid_code = 112,
           cid_multihash = \<lparr> mh_digest = digest0, mh_code = 18, mh_size = 32,
                             mh_bytes = 18 # 32 # digest0 \<rparr>,
           cid_bytes = 18 # 32 # digest0 \<rparr> \<and>
   abi_encode ref_lib [''bytes32''] [JBytes digest0] = Inr (''0x'' @ hexlify digest0) \<and>
   CID_toString ref_lib
     \<lparr> cid_version = 0, cid_code = 112,
       cid_multihash = \<lparr> mh_digest = digest0, mh_code = 18, mh_size = 32,
                         mh_bytes = 18 # 32 # digest0 \<rparr>,
       cid_bytes = 18 # 32 # digest0 \<rparr> = cid0 \<and>
   encodeQmHash ref_lib cid0 = Inr (''0x'' @ hexlify digest0) \<and>
   decodeQmHash ref_lib (''0x'' @ hexlify digest0) = Inr cid0"
  using decodeQmHash_encodeQmHash [where L = ref_lib and hash = cid0 and d = digest0
      and hexstr = "''0x'' @ hexlify digest0"
      and a = "\<lparr> cid_version = 0, cid_code = 112,
           cid_multihash = \<lparr> mh_digest = digest0, mh_code = 18, mh_size = 32,
                             mh_bytes = 18 # 32 # digest0 \<rparr>,
           cid_bytes = 18 # 32 # digest0 \<rparr>"
      and c = "\<lparr> cid_version = 0, cid_code = 112,
           cid_multihash = \<lparr> mh_digest = digest0, mh_code = 18, mh_size = 32,
                             mh_bytes = 18 # 32 # digest0 \<rparr>,
           cid_bytes = 18 # 32 # digest0 \<rparr>"]
    parse_cid0 encode_digest0 encode_cid0
  by (simp add: ref_lib_def ref_CID_createV0_def ref_CID_toString_def Buffer_from_hex_hexlify)

section \<open>A field named ipfsHash\<close>

lemma not_hex_cid0: "\<not> ethers_isHexString cid0"
  by (simp add: cid0_def ethers_isHexString_def)

lemma decodeIpfsValue_cid0:
  "decodeIpfsValue joined_lib (JString cid0) = Inr (JString (''0x'' @ hexlify digest0))"
  using not_hex_cid0 parse_cid0 encode_digest0
  by (simp add: decodeIpfsValue_def joined_lib_def ref_lib_def)

lemma encodeValues_cid0:
  "encodeValues joined_lib schema_j [param_cid] = Inr [JString (''0x'' @ hexlify digest0)]"
  using decodeIpfsValue_cid0
  by (simp add: schema_j_def param_cid_def encodeItem_def sanitize_def is_space_def Let_def)

text \<open>
  The claim C5 as stated fails for the schema \<open>ipfsHash ipfs(bool)Hash\<close>: the text parsed is
  \<open>func(bytes32 ipfs(bool)Hash)\<close>, the parser joins \<open>ipfs\<close> and \<open>Hash\<close>, the descriptor is a
  \<open>bytes32\<close> field named \<open>ipfsHash\<close>, and \<open>encodeData\<close> sends an identifier through
  \<open>decodeIpfsValue\<close>: the value handed to the codec is the digest of the identifier.
\<close>

theorem constructor_joined_name_counterexample:
  "replace_all ''ipfsHash'' ''bytes32'' ''ipfsHash ipfs(bool)Hash'' = ''bytes32 ipfs(bool)Hash'' \<and>
   constructor joined_lib ''ipfsHash ipfs(bool)Hash'' = Inr schema_j \<and>
   si_type (hd schema_j) = ''bytes32'' \<and>
   si_name (hd schema_j) = Some ''ipfsHash'' \<and>
   str_includes ''ipfsHash'' ''ipfsHash'' \<and>
   encodeValues joined_lib schema_j [param_cid] = Inr [JString (''0x'' @ hexlify digest0)]"
  using constructor_schema_j encodeValues_cid0
  by (simp add: schema_j_def str_includes_def)

end
